theory Spec2Isabelle
  imports Main
begin

section \<open>Python values used by \<open>taming/models/vqgan.py\<close>\<close>

text \<open>
  Every exception the modelled code can raise is a constructor of \<open>error\<close>; a function
  that can raise returns \<open>error + 'a\<close> with \<open>Inl\<close> for the exception.
  \<open>ShapeError\<close> stands for the \<open>RuntimeError\<close> PyTorch raises on an impossible
  \<open>reshape\<close>, \<open>permute\<close> or \<open>interpolate\<close>.
\<close>

datatype error =
    TypeError
  | IndexError
  | ValueError
  | AttributeError
  | StopIteration
  | FileNotFoundError
  | FileExistsError
  | NotADirectoryError
  | IsADirectoryError
  | URLError
  | RuntimeError string
  | ShapeError

subsection \<open>Strings\<close>

text \<open>\<open>s.startswith(p)\<close> and \<open>s.endswith(p)\<close>.\<close>

definition startswith :: "string \<Rightarrow> string \<Rightarrow> bool" where
  "startswith s p = (take (length p) s = p)"

definition endswith :: "string \<Rightarrow> string \<Rightarrow> bool" where
  "endswith s p = (length p \<le> length s \<and> drop (length s - length p) s = p)"

text \<open>\<open>p in s\<close> for strings: \<open>p\<close> occurs in \<open>s\<close> as a contiguous substring.\<close>

fun str_contains :: "string \<Rightarrow> string \<Rightarrow> bool" where
  "str_contains [] p = (p = [])"
| "str_contains (c # cs) p = (startswith (c # cs) p \<or> str_contains cs p)"

text \<open>
  \<open>s.split(sep)\<close> for a one-character separator: the list of the pieces between the
  separators, never empty (\<open>''''.split('/')\<close> is \<open>['''']\<close>).
\<close>

fun str_split :: "char \<Rightarrow> string \<Rightarrow> string list" where
  "str_split sep [] = [[]]"
| "str_split sep (c # cs) =
     (if c = sep then [] # str_split sep cs
      else (case str_split sep cs of
              [] \<Rightarrow> [[c]]
            | w # ws \<Rightarrow> (c # w) # ws))"

text \<open>\<open>xs[-1]\<close> and \<open>xs[-2]\<close>: an \<open>IndexError\<close> when the list is too short.\<close>

definition index_neg :: "'a list \<Rightarrow> nat \<Rightarrow> error + 'a" where
  "index_neg xs k =
     (if 0 < k \<and> k \<le> length xs then Inr (xs ! (length xs - k)) else Inl IndexError)"

text \<open>\<open>s.rfind(c)\<close>: the highest index of \<open>c\<close> in \<open>s\<close>, or \<open>-1\<close>.\<close>

definition rfind :: "string \<Rightarrow> char \<Rightarrow> int" where
  "rfind s c =
     (case filter (\<lambda>i. s ! i = c) (rev [0..<length s]) of
        [] \<Rightarrow> -1
      | i # _ \<Rightarrow> int i)"

subsection \<open>Dictionaries\<close>

text \<open>
  A Python \<open>dict\<close> keeps its keys in insertion order and holds every key once: it is a
  list of key-value pairs. \<open>d[k] = v\<close> replaces the value of a key already present, in
  place, and appends a new key at the end.
\<close>

type_synonym ('k, 'v) dict = "('k \<times> 'v) list"

fun dict_setitem :: "('k, 'v) dict \<Rightarrow> 'k \<Rightarrow> 'v \<Rightarrow> ('k, 'v) dict" where
  "dict_setitem [] k v = [(k, v)]"
| "dict_setitem ((k', v') # d) k v =
     (if k' = k then (k, v) # d else (k', v') # dict_setitem d k v)"

definition dict_contains :: "('k, 'v) dict \<Rightarrow> 'k \<Rightarrow> bool" where
  "dict_contains d k = (map_of d k \<noteq> None)"

text \<open>
  The comprehension \<open>{f(k): v for k, v in d.items()}\<close> and the loop
  \<open>for k, v in d.items(): new[f(k)] = v\<close> over an empty \<open>new\<close>: the items are stored
  one after the other, so a later item overwrites an earlier one renamed to the same key.
\<close>

definition dict_rekey :: "('k \<Rightarrow> 'k) \<Rightarrow> ('k, 'v) dict \<Rightarrow> ('k, 'v) dict" where
  "dict_rekey f d = fold (\<lambda>(k, v) new. dict_setitem new (f k) v) d []"

text \<open>
  What \<open>torch.load\<close> can return: a dictionary (of strings to objects), a tensor or other
  leaf value, or an object that is no dictionary (a pickled module, say).
\<close>

datatype 'v pyobj =
    Leaf 'v
  | Dict "(string \<times> 'v pyobj) list"
  | Opaque

section \<open>Loading a checkpoint\<close>


text \<open>
  \<^verbatim>\<open>
  def convert_to_custom_text_state_dict(state_dict: dict):
      if 'text_projection' in state_dict:
          new_state_dict = {}
          for k, v in state_dict.items():
              if any(k.startswith(p) for p in (
                  'text_projection', 'positional_embedding', 'token_embedding',
                  'transformer', 'ln_final',
              )):
                  k = 'text.' + k
              new_state_dict[k] = v
          return new_state_dict
      return state_dict
  \<close>
\<close>

definition text_tower_prefixes :: "string list" where
  "text_tower_prefixes =
     [''text_projection'', ''positional_embedding'', ''token_embedding'',
      ''transformer'', ''ln_final'']"

definition in_text_tower :: "string \<Rightarrow> bool" where
  "in_text_tower k = list_ex (startswith k) text_tower_prefixes"

definition text_key :: "string \<Rightarrow> string" where
  "text_key k = (if in_text_tower k then ''text.'' @ k else k)"

definition convert_to_custom_text_state_dict :: "(string, 'v) dict \<Rightarrow> (string, 'v) dict" where
  "convert_to_custom_text_state_dict state_dict =
     (if dict_contains state_dict ''text_projection''
      then dict_rekey text_key state_dict
      else state_dict)"

section \<open>The file system and the network\<close>

text \<open>
  The download function works on the file system and fetches from the network; both are
  explicit here. A path names a node by the list of its segments between \<open>/\<close>, without
  the empty segments and the \<open>.\<close> segments, so \<open>cache/x\<close>, \<open>cache//x\<close> and
  \<open>./cache/x\<close> are one node. The working directory is the root, \<open>..\<close> and symbolic
  links are not interpreted, and permissions are not modelled. The \<open>world\<close> also logs
  every \<open>urlopen\<close> call and every warning, so that theorems can count them.
\<close>

datatype node = File string | Dir

record world =
  nodes :: "string list \<Rightarrow> node option"
  requests :: "string list"
  warnings :: "string list"

text \<open>
  What \<open>urllib.request.urlopen(url)\<close> yields: the value of the \<open>Content-Length\<close>
  header when the server sends one, and the bytes of the body.
\<close>

record response =
  content_length :: "nat option"
  body :: string

definition components :: "string \<Rightarrow> string list" where
  "components p = filter (\<lambda>s. s \<noteq> [] \<and> s \<noteq> ''.'') (str_split CHR ''/'' p)"

text \<open>A path that ends in \<open>/\<close> or in a \<open>.\<close> segment can only name a directory.\<close>

definition dir_only :: "string \<Rightarrow> bool" where
  "dir_only p = (last (str_split CHR ''/'' p) = [] \<or> last (str_split CHR ''/'' p) = ''.'')"

definition stat :: "world \<Rightarrow> string \<Rightarrow> node option" where
  "stat w p =
     (if p = [] then None
      else if components p = [] then Some Dir
      else (case nodes w (components p) of
              Some (File c) \<Rightarrow> if dir_only p then None else Some (File c)
            | r \<Rightarrow> r))"

text \<open>\<open>os.path.exists\<close>, \<open>os.path.isfile\<close>, and \<open>open(p, "rb").read()\<close>.\<close>

definition path_exists :: "world \<Rightarrow> string \<Rightarrow> bool" where
  "path_exists w p = (stat w p \<noteq> None)"

definition isfile :: "world \<Rightarrow> string \<Rightarrow> bool" where
  "isfile w p = (case stat w p of Some (File c) \<Rightarrow> True | _ \<Rightarrow> False)"

definition read_file :: "world \<Rightarrow> string \<Rightarrow> error + string" where
  "read_file w p =
     (case stat w p of
        Some (File c) \<Rightarrow> Inr c
      | Some Dir \<Rightarrow> Inl IsADirectoryError
      | None \<Rightarrow> Inl FileNotFoundError)"

text \<open>
  \<open>open(p, "wb")\<close> creates the file or truncates it; it needs the parent directory, and
  refuses a directory.
\<close>

definition open_wb :: "world \<Rightarrow> string \<Rightarrow> error + world" where
  "open_wb w p =
     (if p = [] then Inl FileNotFoundError
      else if components p = [] \<or> dir_only p then Inl IsADirectoryError
      else (case nodes w (components p) of
              Some Dir \<Rightarrow> Inl IsADirectoryError
            | Some (File c) \<Rightarrow> Inr (w\<lparr>nodes := (nodes w)(components p \<mapsto> File [])\<rparr>)
            | None \<Rightarrow>
                (if butlast (components p) = [] then
                   Inr (w\<lparr>nodes := (nodes w)(components p \<mapsto> File [])\<rparr>)
                 else (case nodes w (butlast (components p)) of
                         Some Dir \<Rightarrow> Inr (w\<lparr>nodes := (nodes w)(components p \<mapsto> File [])\<rparr>)
                       | Some (File c) \<Rightarrow> Inl NotADirectoryError
                       | None \<Rightarrow> Inl FileNotFoundError))))"

text \<open>What \<open>output.write\<close> has put into the open file when it is closed.\<close>

definition write_file :: "world \<Rightarrow> string \<Rightarrow> string \<Rightarrow> world" where
  "write_file w p c = w\<lparr>nodes := (nodes w)(components p \<mapsto> File c)\<rparr>"

text \<open>
  \<open>os.makedirs(name, exist_ok=True)\<close> creates the directory and every missing ancestor,
  one segment after the other. A file in the way is an error: \<open>FileExistsError\<close> when it
  has the name itself, \<open>NotADirectoryError\<close> when it is an ancestor. The empty name is a
  \<open>FileNotFoundError\<close>. The directories made before an error stay.
\<close>

fun mkdirs ::
  "(string list \<Rightarrow> node option) \<Rightarrow> string list \<Rightarrow> string list \<Rightarrow>
     error option \<times> (string list \<Rightarrow> node option)" where
  "mkdirs ns pre [] = (None, ns)"
| "mkdirs ns pre (c # cs) =
     (case ns (pre @ [c]) of
        None \<Rightarrow> mkdirs (ns(pre @ [c] \<mapsto> Dir)) (pre @ [c]) cs
      | Some Dir \<Rightarrow> mkdirs ns (pre @ [c]) cs
      | Some (File x) \<Rightarrow> (Some (if cs = [] then FileExistsError else NotADirectoryError), ns))"

definition makedirs :: "world \<Rightarrow> string \<Rightarrow> error option \<times> world" where
  "makedirs w name =
     (if name = [] then (Some FileNotFoundError, w)
      else (case mkdirs (nodes w) [] (components name) of
              (e, ns) \<Rightarrow> (e, w\<lparr>nodes := ns\<rparr>)))"

subsection \<open>\<open>os.path\<close>\<close>

text \<open>
  \<open>os.path.basename(p)\<close> is what follows the last \<open>/\<close> of \<open>p\<close>.
  \<open>os.path.join(a, b)\<close> is \<open>b\<close> when \<open>b\<close> starts with \<open>/\<close>, and otherwise \<open>a\<close> and
  \<open>b\<close> with a \<open>/\<close> between them unless \<open>a\<close> is empty or ends in one.
  \<open>os.path.splitext(p)\<close> splits at the last dot of the last segment, unless that
  segment has only dots before it.
\<close>

definition basename :: "string \<Rightarrow> string" where
  "basename p = rev (takeWhile (\<lambda>c. c \<noteq> CHR ''/'') (rev p))"

definition path_join :: "string \<Rightarrow> string \<Rightarrow> string" where
  "path_join a b =
     (if startswith b ''/'' then b
      else if a = [] \<or> endswith a ''/'' then a @ b
      else a @ ''/'' @ b)"

definition splitext :: "string \<Rightarrow> string \<times> string" where
  "splitext p =
     (let sepIndex = rfind p CHR ''/''; dotIndex = rfind p CHR ''.''
      in if dotIndex > sepIndex \<and>
            list_ex (\<lambda>i. p ! i \<noteq> CHR ''.'') [nat (sepIndex + 1)..<nat dotIndex]
         then (take (nat dotIndex) p, drop (nat dotIndex) p)
         else (p, []))"

section \<open>Downloading the pretrained weights\<close>

text \<open>
  The loop of lines 56 to 62, reading the body in buffers of 8192 bytes until a read
  returns nothing, and writing each buffer to the file:
  \<^verbatim>\<open>
  while True:
      buffer = source.read(8192)
      if not buffer:
          break
      output.write(buffer)
      loop.update(len(buffer))
  \<close>
  The first argument is what the source still holds, the second what the file holds.
\<close>

function copy_chunks :: "string \<Rightarrow> string \<Rightarrow> string" where
  "copy_chunks source output =
     (let buffer = take 8192 source
      in if buffer = [] then output
         else copy_chunks (drop 8192 source) (output @ buffer))"
  by pat_completeness auto
termination
  by (relation "measure (\<lambda>(source, output). length source)") auto

declare copy_chunks.simps [simp del]

text \<open>
  Lines 33 to 38: the hash the file must have, read off the URL.
  \<^verbatim>\<open>
  if 'openaipublic' in url:
      expected_sha256 = url.split("/")[-2]
  elif 'mlfoundations' in url:
      expected_sha256 = os.path.splitext(filename)[0].split("-")[-1]
  else:
      expected_sha256 = ''
  \<close>
\<close>

definition expected_sha256 :: "string \<Rightarrow> error + string" where
  "expected_sha256 url =
     (let filename = basename url
      in if str_contains url ''openaipublic'' then index_neg (str_split CHR ''/'' url) 2
         else if str_contains url ''mlfoundations''
         then index_neg (str_split CHR ''-'' (fst (splitext filename))) 1
         else Inr [])"

definition not_regular_message :: "string \<Rightarrow> string" where
  "not_regular_message download_target = download_target @ '' exists and is not a regular file''"

definition mismatch_warning :: "string \<Rightarrow> string" where
  "mismatch_warning download_target =
     download_target @ '' exists, but the SHA256 checksum does not match; re-downloading the file''"

definition mismatch_message :: "string" where
  "mismatch_message = ''Model has been downloaded but the SHA256 checksum does not not match''"

text \<open>
  Lines 54 to 67: fetch the URL into the target and check the hash of what was written.
  \<open>urlopen\<close> comes first and is logged; the file is opened (and truncated) next;
  \<open>int(source.headers.get("Content-Length"))\<close> raises when the header is missing, after
  the file was opened. \<open>net\<close> is the network (\<open>None\<close>: the request fails) and
  \<open>sha256\<close> is \<open>hashlib.sha256(...).hexdigest()\<close>; both are parameters.
\<close>

definition fetch ::
  "(string \<Rightarrow> response option) \<Rightarrow> (string \<Rightarrow> string) \<Rightarrow> string \<Rightarrow> string \<Rightarrow> string \<Rightarrow>
     world \<Rightarrow> (error + string) \<times> world" where
  "fetch net sha256 url expected download_target w =
     (let w1 = w\<lparr>requests := requests w @ [url]\<rparr>
      in case net url of
           None \<Rightarrow> (Inl URLError, w1)
         | Some source \<Rightarrow>
             (case open_wb w1 download_target of
                Inl e \<Rightarrow> (Inl e, w1)
              | Inr w2 \<Rightarrow>
                  (case content_length source of
                     None \<Rightarrow> (Inl TypeError, w2)
                   | Some n \<Rightarrow>
                       let w3 = write_file w2 download_target (copy_chunks (body source) [])
                       in if expected \<noteq> []
                          then (case read_file w3 download_target of
                                  Inl e \<Rightarrow> (Inl e, w3)
                                | Inr content \<Rightarrow>
                                    if \<not> startswith (sha256 content) expected
                                    then (Inl (RuntimeError mismatch_message), w3)
                                    else (Inr download_target, w3))
                          else (Inr download_target, w3))))"

text \<open>
  The function itself. \<open>cache_dir\<close> is \<open>None\<close> by default, and \<open>os.makedirs(None)\<close>
  is a \<open>TypeError\<close>.
  \<^verbatim>\<open>
  def download_pretrained_from_url(url: str, cache_dir: Union[str, None] = None):
      os.makedirs(cache_dir, exist_ok=True)
      filename = os.path.basename(url)
      ... expected_sha256 ...
      download_target = os.path.join(cache_dir, filename)
      if os.path.exists(download_target) and not os.path.isfile(download_target):
          raise RuntimeError(f"{download_target} exists and is not a regular file")
      if os.path.isfile(download_target):
          if expected_sha256:
              if hashlib.sha256(open(download_target, "rb").read()).hexdigest()
                    .startswith(expected_sha256):
                  return download_target
              else:
                  warnings.warn(f"{download_target} exists, but the SHA256 checksum ...")
          else:
              return download_target
      ... lines 54 to 67 ...
  \<close>
\<close>

definition download_pretrained_from_url ::
  "(string \<Rightarrow> response option) \<Rightarrow> (string \<Rightarrow> string) \<Rightarrow> string \<Rightarrow> string option \<Rightarrow>
     world \<Rightarrow> (error + string) \<times> world" where
  "download_pretrained_from_url net sha256 url cache_dir w =
     (case cache_dir of
        None \<Rightarrow> (Inl TypeError, w)
      | Some dir \<Rightarrow>
          (case makedirs w dir of
             (Some e, w1) \<Rightarrow> (Inl e, w1)
           | (None, w1) \<Rightarrow>
               let filename = basename url
               in (case expected_sha256 url of
                     Inl e \<Rightarrow> (Inl e, w1)
                   | Inr expected \<Rightarrow>
                       let download_target = path_join dir filename
                       in if path_exists w1 download_target \<and> \<not> isfile w1 download_target
                          then (Inl (RuntimeError (not_regular_message download_target)), w1)
                          else if isfile w1 download_target
                          then (if expected \<noteq> []
                                then (case read_file w1 download_target of
                                        Inl e \<Rightarrow> (Inl e, w1)
                                      | Inr content \<Rightarrow>
                                          if startswith (sha256 content) expected
                                          then (Inr download_target, w1)
                                          else fetch net sha256 url expected download_target
                                                 (w1\<lparr>warnings := warnings w1 @
                                                        [mismatch_warning download_target]\<rparr>))
                                else (Inr download_target, w1))
                          else fetch net sha256 url expected download_target w1)))"

section \<open>Tensors\<close>

text \<open>
  A tensor is its shape and its elements in row-major order; the element type is left
  open, since the code modelled here moves elements and never computes with them. A
  PyTorch tensor always holds as many elements as its shape says (\<open>valid\<close>).
\<close>

record 'a tensor =
  shape :: "nat list"
  elems :: "'a list"

definition valid :: "'a tensor \<Rightarrow> bool" where
  "valid t = (length (elems t) = prod_list (shape t))"

text \<open>\<open>t.size(i)\<close> for \<open>i \<ge> 0\<close>.\<close>

definition size_at :: "'a tensor \<Rightarrow> nat \<Rightarrow> error + nat" where
  "size_at t i = (if i < length (shape t) then Inr (shape t ! i) else Inl IndexError)"

text \<open>
  The multi-index of the \<open>n\<close>-th element of a tensor of a given shape, and the position
  of a multi-index, both in row-major order.
\<close>

fun unravel :: "nat list \<Rightarrow> nat \<Rightarrow> nat list" where
  "unravel [] n = []"
| "unravel (d # ds) n = (n div prod_list ds) # unravel ds (n mod prod_list ds)"

fun ravel :: "nat list \<Rightarrow> nat list \<Rightarrow> nat" where
  "ravel (d # ds) (i # idx) = i * prod_list ds + ravel ds idx"
| "ravel ds idx = 0"

definition index_of :: "nat list \<Rightarrow> nat \<Rightarrow> nat" where
  "index_of dims q = length (takeWhile (\<lambda>p. p \<noteq> q) dims)"

text \<open>
  \<open>t.permute(*dims)\<close>: dimension \<open>m\<close> of the result is dimension \<open>dims[m]\<close> of
  \<open>t\<close>. PyTorch raises when the number of dimensions differs, when a dimension is out of
  range and when one is repeated.
\<close>

definition permute :: "'a tensor \<Rightarrow> nat list \<Rightarrow> error + 'a tensor" where
  "permute t dims =
     (if length dims \<noteq> length (shape t) then Inl ShapeError
      else if list_ex (\<lambda>p. length (shape t) \<le> p) dims then Inl IndexError
      else if \<not> distinct dims then Inl ShapeError
      else
        let new_shape = map (\<lambda>p. shape t ! p) dims
        in Inr \<lparr>shape = new_shape,
               elems = map (\<lambda>n. elems t !
                               ravel (shape t)
                                 (map (\<lambda>q. unravel new_shape n ! index_of dims q)
                                    [0..<length dims]))
                         [0..<prod_list new_shape]\<rparr>)"

text \<open>
  \<open>t.reshape(*dims)\<close>, where one dimension may be \<open>-1\<close> and is then inferred. The
  elements keep their row-major order. PyTorch raises when the sizes do not fit, when
  more than one dimension is \<open>-1\<close>, when a dimension is below \<open>-1\<close>, and when the
  inferred dimension is ambiguous because the others multiply to zero.
\<close>

definition reshape :: "'a tensor \<Rightarrow> int list \<Rightarrow> error + 'a tensor" where
  "reshape t dims =
     (let numel = int (prod_list (shape t));
          newsize = prod_list (filter (\<lambda>d. d \<noteq> -1) dims)
      in if 1 < length (filter (\<lambda>d. d = -1) dims) \<or> list_ex (\<lambda>d. d < -1) dims
         then Inl ShapeError
         else if \<not> list_ex (\<lambda>d. d = -1) dims
         then (if numel = newsize
               then Inr \<lparr>shape = map nat dims, elems = elems t\<rparr>
               else Inl ShapeError)
         else if numel = newsize \<or> (0 < newsize \<and> numel mod newsize = 0)
         then (if newsize = 0 then Inl ShapeError
               else Inr \<lparr>shape = map (\<lambda>d. if d = -1 then nat (numel div newsize) else nat d) dims,
                         elems = elems t\<rparr>)
         else Inl ShapeError)"

text \<open>\<open>t.unsqueeze(0)\<close> and \<open>t.squeeze()\<close>; the latter drops every dimension of size 1.\<close>

definition unsqueeze0 :: "'a tensor \<Rightarrow> 'a tensor" where
  "unsqueeze0 t = \<lparr>shape = 1 # shape t, elems = elems t\<rparr>"

definition squeeze :: "'a tensor \<Rightarrow> 'a tensor" where
  "squeeze t = \<lparr>shape = filter (\<lambda>d. d \<noteq> 1) (shape t), elems = elems t\<rparr>"

text \<open>
  \<open>F.interpolate(input, size=out_size)\<close> in its default mode \<open>nearest\<close>, on the
  three-dimensional input \<open>(N, C, L)\<close> that \<open>resize_pos_embed\<close> passes (its
  \<open>permute(0, 2, 1)\<close> has raised on any other rank): element \<open>j\<close> of output row
  \<open>k div out_size\<close> is element \<open>src_index L out_size j\<close> of the same input row,
  capped at \<open>L - 1\<close>. PyTorch
  computes that index in single precision, as the floor of \<open>j\<close> times \<open>L / out_size\<close>,
  and as \<open>j\<close> itself when \<open>L = out_size\<close>; it is a parameter here. An empty channel or
  length and an output size of zero are refused.
\<close>

definition interpolate ::
  "(nat \<Rightarrow> nat \<Rightarrow> nat \<Rightarrow> nat) \<Rightarrow> 'a tensor \<Rightarrow> nat \<Rightarrow> error + 'a tensor" where
  "interpolate src_index input out_size =
     (case shape input of
        [n, c, l] \<Rightarrow>
          if c = 0 \<or> l = 0 \<or> out_size = 0 then Inl ShapeError
          else Inr \<lparr>shape = [n, c, out_size],
                    elems = map (\<lambda>k. elems input !
                                   ((k div out_size) * l +
                                    min (src_index l out_size (k mod out_size)) (l - 1)))
                              [0..<n * c * out_size]\<rparr>
      | _ \<Rightarrow> Inl ShapeError)"

section \<open>Resizing the position embedding\<close>

text \<open>
  \<^verbatim>\<open>
  def resize_pos_embed(state_dict, pos_embed_width):
      pos_emb = state_dict.get('positional_embedding', None)
      pos_emb = pos_emb.unsqueeze(0).permute(0, 2, 1)
      pos_emb = F.interpolate(pos_emb, size=pos_embed_width)
      pos_emb = pos_emb.permute(0, 2, 1).squeeze()
      state_dict['positional_embedding'] = pos_emb
  \<close>
  The function changes \<open>state_dict\<close> in place; the model returns the new dictionary.
  A missing key gives \<open>None\<close>, and \<open>None.unsqueeze\<close> is an \<open>AttributeError\<close>.
\<close>

definition resize_pos_embed ::
  "(nat \<Rightarrow> nat \<Rightarrow> nat \<Rightarrow> nat) \<Rightarrow> (string, 'a tensor) dict \<Rightarrow> nat \<Rightarrow>
     error + (string, 'a tensor) dict" where
  "resize_pos_embed src_index state_dict pos_embed_width =
     (case map_of state_dict ''positional_embedding'' of
        None \<Rightarrow> Inl AttributeError
      | Some pos_emb \<Rightarrow>
          (case permute (unsqueeze0 pos_emb) [0, 2, 1] of
             Inl e \<Rightarrow> Inl e
           | Inr p1 \<Rightarrow>
               (case interpolate src_index p1 pos_embed_width of
                  Inl e \<Rightarrow> Inl e
                | Inr p2 \<Rightarrow>
                    (case permute p2 [0, 2, 1] of
                       Inl e \<Rightarrow> Inl e
                     | Inr p3 \<Rightarrow>
                         Inr (dict_setitem state_dict ''positional_embedding'' (squeeze p3))))))"

section \<open>The model\<close>

text \<open>
  \<open>VQModel\<close> is built from sub-modules that are defined in other files of the
  repository and in PyTorch (\<open>Encoder\<close>, \<open>Decoder\<close>, \<open>Text_Decoder\<close>,
  \<open>VectorQuantizer2\<close>, \<open>TextTransformer\<close>, \<open>Cluster\<close>, \<open>nn.Conv2d\<close>,
  \<open>nn.Linear\<close>, \<open>nn.TransformerDecoder\<close>, \<open>nn.TransformerEncoder\<close>). Each is a
  field of the record: a function of its inputs that returns its outputs or raises.
  In this reading a sub-module has no state of its own and draws no random numbers
  (the model in evaluation mode). The type parameters are the elements of the float
  tensors \<open>'a\<close>, the token batch \<open>'t\<close>, the valid lengths \<open>'v\<close>, the attention mask
  \<open>'m\<close> and the index information of the quantizer \<open>'i\<close>; a loss is a tensor.
\<close>

datatype modality = Image | Text

record ('a, 't, 'v, 'm, 'i) vqmodel =
  encoder :: "'a tensor \<Rightarrow> error + 'a tensor"
  decoder :: "'a tensor \<Rightarrow> error + 'a tensor \<times> 'a tensor"
  quantize :: "'a tensor \<Rightarrow> modality \<Rightarrow> error + 'a tensor \<times> 'a tensor \<times> 'i"
  quant_conv :: "'a tensor \<Rightarrow> error + 'a tensor"
  post_quant_conv :: "'a tensor \<Rightarrow> error + 'a tensor"
  text_encoder :: "'t \<Rightarrow> 'v \<Rightarrow> error + 'a tensor \<times> 'm"
  text_decoder :: "'a tensor \<Rightarrow> error + 'a tensor"
  quant_linear :: "'a tensor \<Rightarrow> error + 'a tensor"
  quant_tf :: "'a tensor \<Rightarrow> 'a tensor \<Rightarrow> error + 'a tensor"
  post_quant_tf :: "'a tensor \<Rightarrow> error + 'a tensor"
  i_t_cluster ::
    "'a tensor \<Rightarrow> 'a tensor \<Rightarrow> 'm \<Rightarrow> 'v \<Rightarrow> error + 'a tensor \<times> 'a tensor \<times> 'a tensor \<times> 'a tensor"

text \<open>Running one step after another: the first exception ends the call.\<close>

definition bind :: "error + 'x \<Rightarrow> ('x \<Rightarrow> error + 'y) \<Rightarrow> error + 'y" where
  "bind r f = (case r of Inl e \<Rightarrow> Inl e | Inr x \<Rightarrow> f x)"

text \<open>
  \<^verbatim>\<open>
  def encode(self, x):
      h = self.encoder(x)
      image_hidden = self.quant_conv(h)
      image_quant, image_quant_loss, info = self.quantize(image_hidden, key='image')
      return image_quant, image_quant_loss, info, image_hidden
  \<close>
\<close>

definition encode ::
  "('a, 't, 'v, 'm, 'i) vqmodel \<Rightarrow> 'a tensor \<Rightarrow>
     error + 'a tensor \<times> 'a tensor \<times> 'i \<times> 'a tensor" where
  "encode self x =
     bind (encoder self x) (\<lambda>h.
     bind (quant_conv self h) (\<lambda>image_hidden.
     bind (quantize self image_hidden Image) (\<lambda>(image_quant, image_quant_loss, info).
     Inr (image_quant, image_quant_loss, info, image_hidden))))"

text \<open>
  \<^verbatim>\<open>
  def decode(self, image_coquant):
      image_coquant = self.post_quant_conv(image_coquant)
      i2i_rec, image_hidden = self.decoder(image_coquant)
      i2t_rec = self.text_decoder(image_hidden)
      return i2i_rec, i2t_rec
  \<close>
\<close>

definition decode ::
  "('a, 't, 'v, 'm, 'i) vqmodel \<Rightarrow> 'a tensor \<Rightarrow> error + 'a tensor \<times> 'a tensor" where
  "decode self image_coquant =
     bind (post_quant_conv self image_coquant) (\<lambda>image_coquant.
     bind (decoder self image_coquant) (\<lambda>(i2i_rec, image_hidden).
     bind (text_decoder self image_hidden) (\<lambda>i2t_rec.
     Inr (i2i_rec, i2t_rec))))"

text \<open>
  \<^verbatim>\<open>
  def text_encode(self, text, valid_lens, image_hidden):
      image_hidden = image_hidden.reshape(image_hidden.size(0), image_hidden.size(1), -1)
      image_hidden = image_hidden.permute(2, 0, 1)
      text, mask = self.text_encoder(text, valid_lens)
      text = self.quant_linear(text).permute(1, 0, 2)
      text = self.quant_tf(tgt=image_hidden, memory=text).permute(1, 0, 2)
      text_quant, text_quant_loss, codebook_indices = self.quantize(text, key='text')
      return text_quant, text_quant_loss, codebook_indices, text, mask
  \<close>
\<close>

definition text_encode ::
  "('a, 't, 'v, 'm, 'i) vqmodel \<Rightarrow> 't \<Rightarrow> 'v \<Rightarrow> 'a tensor \<Rightarrow>
     error + 'a tensor \<times> 'a tensor \<times> 'i \<times> 'a tensor \<times> 'm" where
  "text_encode self text valid_lens image_hidden =
     bind (size_at image_hidden 0) (\<lambda>s0.
     bind (size_at image_hidden 1) (\<lambda>s1.
     bind (reshape image_hidden [int s0, int s1, -1]) (\<lambda>image_hidden.
     bind (permute image_hidden [2, 0, 1]) (\<lambda>image_hidden.
     bind (text_encoder self text valid_lens) (\<lambda>(text, mask).
     bind (quant_linear self text) (\<lambda>text.
     bind (permute text [1, 0, 2]) (\<lambda>text.
     bind (quant_tf self image_hidden text) (\<lambda>text.
     bind (permute text [1, 0, 2]) (\<lambda>text.
     bind (quantize self text Text) (\<lambda>(text_quant, text_quant_loss, codebook_indices).
     Inr (text_quant, text_quant_loss, codebook_indices, text, mask)))))))))))"

text \<open>
  \<^verbatim>\<open>
  def text_decode(self, text_quant, valid_lens):
      text_quant = text_quant.permute(1, 0, 2)
      text_quant = self.post_quant_tf(text_quant)
      text_quant = text_quant.permute(1, 2, 0)
      b, d, l = text_quant.size()
      text_quant = text_quant.reshape(b, d, 16, 16)
      t2i_rec, text_hidden = self.decoder(text_quant)
      t2t_rec = self.text_decoder(text_hidden)
      return t2t_rec, t2i_rec
  \<close>
  Unpacking \<open>b, d, l = text_quant.size()\<close> is a \<open>ValueError\<close> unless the tensor has
  three dimensions.
\<close>

definition text_decode ::
  "('a, 't, 'v, 'm, 'i) vqmodel \<Rightarrow> 'a tensor \<Rightarrow> 'v \<Rightarrow> error + 'a tensor \<times> 'a tensor" where
  "text_decode self text_quant valid_lens =
     bind (permute text_quant [1, 0, 2]) (\<lambda>text_quant.
     bind (post_quant_tf self text_quant) (\<lambda>text_quant.
     bind (permute text_quant [1, 2, 0]) (\<lambda>text_quant.
     (case shape text_quant of
        [b, d, l] \<Rightarrow>
          bind (reshape text_quant [int b, int d, 16, 16]) (\<lambda>text_quant.
          bind (decoder self text_quant) (\<lambda>(t2i_rec, text_hidden).
          bind (text_decoder self text_hidden) (\<lambda>t2t_rec.
          Inr (t2t_rec, t2i_rec))))
      | _ \<Rightarrow> Inl ValueError))))"

text \<open>
  \<^verbatim>\<open>
  def forward(self, image, text, valid_lens):
      image_quant, image_quant_loss, info, image_hidden = self.encode(image)
      text_quant, text_quant_loss, text_codebook_indices, text_hidden, mask =
          self.text_encode(text, valid_lens, image_hidden)
      image_coquant, text_coquant, i_coquant_loss, t_coquant_loss =
          self.i_t_cluster(image_quant, text_quant, mask, valid_lens)
      i2i_rec, i2t_rec = self.decode(image_coquant)
      t2t_rec, t2i_rec = self.text_decode(text_quant, valid_lens)
      return i2i_rec, i2t_rec, image_quant_loss, t2t_rec, t2i_rec, text_quant_loss,
             i_coquant_loss, t_coquant_loss
  \<close>
  The argument \<open>image\<close> is written \<open>img\<close>.
\<close>

definition forward ::
  "('a, 't, 'v, 'm, 'i) vqmodel \<Rightarrow> 'a tensor \<Rightarrow> 't \<Rightarrow> 'v \<Rightarrow>
     error + 'a tensor \<times> 'a tensor \<times> 'a tensor \<times> 'a tensor \<times> 'a tensor \<times> 'a tensor \<times>
             'a tensor \<times> 'a tensor" where
  "forward self img text valid_lens =
     bind (encode self img) (\<lambda>(image_quant, image_quant_loss, info, image_hidden).
     bind (text_encode self text valid_lens image_hidden)
       (\<lambda>(text_quant, text_quant_loss, text_codebook_indices, text_hidden, mask).
     bind (i_t_cluster self image_quant text_quant mask valid_lens)
       (\<lambda>(image_coquant, text_coquant, i_coquant_loss, t_coquant_loss).
     bind (decode self image_coquant) (\<lambda>(i2i_rec, i2t_rec).
     bind (text_decode self text_quant valid_lens) (\<lambda>(t2t_rec, t2i_rec).
     Inr (i2i_rec, i2t_rec, image_quant_loss, t2t_rec, t2i_rec, text_quant_loss,
          i_coquant_loss, t_coquant_loss))))))"

section \<open>Properties of the dictionaries\<close>

lemma dict_setitem_fresh:
  "k \<notin> fst ` set d \<Longrightarrow> dict_setitem d k v = d @ [(k, v)]"
  by (induction d) auto

lemma dict_setitem_same: "map_of d k = Some v \<Longrightarrow> dict_setitem d k v = d"
  by (induction d) (auto split: if_splits)

lemma fold_setitem_distinct:
  "distinct (map fst acc @ map (\<lambda>kv. f (fst kv)) d) \<Longrightarrow>
   fold (\<lambda>(k, v) new. dict_setitem new (f k) v) d acc = acc @ map (\<lambda>(k, v). (f k, v)) d"
proof (induction d arbitrary: acc)
  case Nil
  then show ?case by simp
next
  case (Cons kv d)
  obtain k v where kv: "kv = (k, v)" by (cases kv)
  from Cons.prems have fresh: "f k \<notin> fst ` set acc"
    by (auto simp: kv)
  from Cons.prems have "distinct (map fst (acc @ [(f k, v)]) @ map (\<lambda>kv. f (fst kv)) d)"
    by (auto simp: kv)
  then have "fold (\<lambda>(k, v) new. dict_setitem new (f k) v) d (acc @ [(f k, v)])
           = (acc @ [(f k, v)]) @ map (\<lambda>(k, v). (f k, v)) d"
    by (rule Cons.IH)
  then show ?case
    by (simp add: kv dict_setitem_fresh [OF fresh])
qed

lemma dict_rekey_distinct:
  "distinct (map (\<lambda>kv. f (fst kv)) d) \<Longrightarrow> dict_rekey f d = map (\<lambda>(k, v). (f k, v)) d"
  using fold_setitem_distinct [of "[]" f d] by (simp add: dict_rekey_def)



lemma text_key_inj_on:
  assumes "\<forall>k \<in> K. in_text_tower k \<longrightarrow> ''text.'' @ k \<notin> K"
  shows "inj_on text_key K"
proof (rule inj_onI)
  fix a b assume a: "a \<in> K" and b: "b \<in> K" and eq: "text_key a = text_key b"
  show "a = b"
  proof (cases "in_text_tower a")
    case ta: True
    show ?thesis
    proof (cases "in_text_tower b")
      case True
      with ta eq show ?thesis by (simp add: text_key_def)
    next
      case False
      with ta eq have "''text.'' @ a = b" by (simp add: text_key_def)
      with assms a b ta show ?thesis by blast
    qed
  next
    case fa: False
    show ?thesis
    proof (cases "in_text_tower b")
      case True
      with fa eq have "''text.'' @ b = a" by (simp add: text_key_def)
      with assms a b True show ?thesis by blast
    next
      case False
      with fa eq show ?thesis by (simp add: text_key_def)
    qed
  qed
qed

lemma dict_contains_iff: "dict_contains d k \<longleftrightarrow> k \<in> set (map fst d)"
  by (simp add: dict_contains_def map_of_eq_None_iff)

section \<open>Properties of the file system\<close>

lemma copy_chunks_eq: "copy_chunks src out = out @ src"
proof (induction src out rule: copy_chunks.induct)
  case (1 src out)
  show ?case
  proof (cases "take 8192 src = []")
    case True
    then have "src = []" by simp
    then show ?thesis by (simp add: copy_chunks.simps)
  next
    case False
    with "1" have "copy_chunks (drop 8192 src) (out @ take 8192 src)
                 = (out @ take 8192 src) @ drop 8192 src"
      by simp
    with False show ?thesis
      by (subst copy_chunks.simps) (simp add: Let_def)
  qed
qed

lemma mkdirs_cases:
  "mkdirs ns pre cs = (e, ns') \<Longrightarrow> ns' p = ns p \<or> (ns p = None \<and> ns' p = Some Dir)"
proof (induction cs arbitrary: ns pre)
  case Nil
  then show ?case by simp
next
  case (Cons c cs)
  show ?case
  proof (cases "ns (pre @ [c])")
    case None
    with Cons.prems have "mkdirs (ns(pre @ [c] \<mapsto> Dir)) (pre @ [c]) cs = (e, ns')" by simp
    from Cons.IH [OF this] None show ?thesis
      by (cases "p = pre @ [c]") auto
  next
    case (Some n)
    show ?thesis
    proof (cases n)
      case (File x)
      with Some Cons.prems show ?thesis by simp
    next
      case Dir
      with Some Cons.prems have "mkdirs ns (pre @ [c]) cs = (e, ns')" by simp
      from Cons.IH [OF this] show ?thesis .
    qed
  qed
qed

lemma mkdirs_made:
  "mkdirs ns pre cs = (None, ns') \<Longrightarrow> k < length cs \<Longrightarrow> ns' (pre @ take (Suc k) cs) = Some Dir"
proof (induction cs arbitrary: ns pre k)
  case Nil
  then show ?case by simp
next
  case (Cons c cs)
  have step: "\<exists>ns1. mkdirs ns1 (pre @ [c]) cs = (None, ns') \<and> ns1 (pre @ [c]) = Some Dir"
  proof (cases "ns (pre @ [c])")
    case None
    with Cons.prems(1) show ?thesis by auto
  next
    case (Some n)
    with Cons.prems(1) show ?thesis by (cases n) (auto split: if_splits)
  qed
  then obtain ns1 where run: "mkdirs ns1 (pre @ [c]) cs = (None, ns')"
    and here: "ns1 (pre @ [c]) = Some Dir" by blast
  show ?case
  proof (cases k)
    case 0
    from mkdirs_cases [OF run, of "pre @ [c]"] here have "ns' (pre @ [c]) = Some Dir" by auto
    with 0 show ?thesis by simp
  next
    case (Suc j)
    with Cons.prems(2) have "j < length cs" by simp
    from Cons.IH [OF run this] Suc show ?thesis by simp
  qed
qed

lemma mkdirs_idem:
  "(\<forall>k < length cs. ns (pre @ take (Suc k) cs) = Some Dir) \<Longrightarrow> mkdirs ns pre cs = (None, ns)"
proof (induction cs arbitrary: pre)
  case Nil
  then show ?case by simp
next
  case (Cons c cs)
  from Cons.prems have here: "ns (pre @ [c]) = Some Dir" by fastforce
  have "\<forall>k < length cs. ns ((pre @ [c]) @ take (Suc k) cs) = Some Dir"
  proof (intro allI impI)
    fix k assume "k < length cs"
    then have "Suc k < length (c # cs)" by simp
    with Cons.prems have "ns (pre @ take (Suc (Suc k)) (c # cs)) = Some Dir" by blast
    then show "ns ((pre @ [c]) @ take (Suc k) cs) = Some Dir" by simp
  qed
  from Cons.IH [OF this] here show ?case by simp
qed

lemma str_split_nonempty: "str_split sep s \<noteq> []"
  by (induction s) (auto split: list.splits)

lemma str_split_no_sep: "sep \<notin> set s \<Longrightarrow> str_split sep s = [s]"
  by (induction s) auto

lemma str_split_append: "str_split sep (a @ sep # b) = str_split sep a @ str_split sep b"
proof (induction a)
  case Nil
  then show ?case by simp
next
  case (Cons c a)
  show ?case
  proof (cases "c = sep")
    case True
    with Cons show ?thesis by simp
  next
    case False
    obtain w ws where "str_split sep a = w # ws"
      using str_split_nonempty [of sep a] by (cases "str_split sep a") auto
    with False Cons show ?thesis by simp
  qed
qed

lemma basename_no_slash: "CHR ''/'' \<notin> set (basename p)"
  by (auto simp: basename_def dest: set_takeWhileD)


lemma components_no_slash:
  "CHR ''/'' \<notin> set f \<Longrightarrow> components f = (if f = [] \<or> f = ''.'' then [] else [f])"
  by (simp add: components_def str_split_no_sep)

lemma startswith_slash: "startswith f ''/'' \<Longrightarrow> CHR ''/'' \<in> set f"
  by (cases f) (auto simp: startswith_def)

lemma endswith_slash: "endswith a ''/'' \<Longrightarrow> \<exists>a'. a = a' @ ''/''"
proof -
  assume "endswith a ''/''"
  then have "drop (length a - 1) a = ''/''" and "1 \<le> length a"
    by (auto simp: endswith_def)
  then have "take (length a - 1) a @ ''/'' = a"
    by (metis append_take_drop_id)
  then show ?thesis by metis
qed

lemma split_join:
  assumes "CHR ''/'' \<notin> set f" and "dir \<noteq> []"
  shows "\<exists>pre. str_split CHR ''/'' (path_join dir f) = pre @ [f] \<and>
           filter (\<lambda>s. s \<noteq> [] \<and> s \<noteq> ''.'') pre = components dir"
proof (cases "endswith dir ''/''")
  case True
  then obtain a where a: "dir = a @ ''/''" using endswith_slash by blast
  have j: "path_join dir f = a @ CHR ''/'' # f"
    using assms True startswith_slash by (auto simp: path_join_def a)
  have "str_split CHR ''/'' (path_join dir f) = str_split CHR ''/'' a @ [f]"
    by (simp add: j str_split_append str_split_no_sep assms(1))
  moreover have "components dir = filter (\<lambda>s. s \<noteq> [] \<and> s \<noteq> ''.'') (str_split CHR ''/'' a)"
    using str_split_append [of "CHR ''/''" a "[]"] by (simp add: components_def a)
  ultimately show ?thesis by simp
next
  case False
  have j: "path_join dir f = dir @ CHR ''/'' # f"
    using assms False startswith_slash by (auto simp: path_join_def)
  have "str_split CHR ''/'' (path_join dir f) = str_split CHR ''/'' dir @ [f]"
    by (simp add: j str_split_append str_split_no_sep assms(1))
  then show ?thesis by (simp add: components_def)
qed

lemma components_join:
  assumes "CHR ''/'' \<notin> set f" and "dir \<noteq> []"
  shows "components (path_join dir f) = components dir @ (if f = [] \<or> f = ''.'' then [] else [f])"
  using split_join [OF assms] by (auto simp: components_def)

lemma dir_only_join:
  assumes "CHR ''/'' \<notin> set f" and "dir \<noteq> []"
  shows "dir_only (path_join dir f) \<longleftrightarrow> f = [] \<or> f = ''.''"
  using split_join [OF assms] by (auto simp: dir_only_def)

lemma path_join_nonempty: "dir \<noteq> [] \<Longrightarrow> path_join dir f \<noteq> []"
  by (auto simp: path_join_def startswith_def)

lemma makedirs_ok:
  assumes "makedirs w dir = (None, w1)"
  shows "dir \<noteq> []" and "requests w1 = requests w" and "warnings w1 = warnings w"
    and "mkdirs (nodes w) [] (components dir) = (None, nodes w1)"
  using assms by (auto simp: makedirs_def split: if_splits prod.splits)

lemma makedirs_log:
  assumes "makedirs w dir = (e, w1)"
  shows "requests w1 = requests w" and "warnings w1 = warnings w"
  using assms by (auto simp: makedirs_def split: if_splits prod.splits)

lemma makedirs_nodes:
  assumes "makedirs w dir = (e, w1)"
  shows "nodes w1 p = nodes w p \<or> (nodes w p = None \<and> nodes w1 p = Some Dir)"
proof (cases "dir = []")
  case True
  with assms show ?thesis by (simp add: makedirs_def)
next
  case False
  with assms obtain ns where "mkdirs (nodes w) [] (components dir) = (e, ns)" and "nodes w1 = ns"
    by (auto simp: makedirs_def split: prod.splits)
  with mkdirs_cases [of "nodes w" "[]" "components dir" e ns p] show ?thesis by simp
qed

lemma makedirs_stat_file:
  assumes "makedirs w dir = (e, w1)"
  shows "stat w1 p = Some (File c) \<longleftrightarrow> stat w p = Some (File c)"
  using makedirs_nodes [OF assms, of "components p"]
  by (auto simp: stat_def split: option.splits node.splits if_splits)

lemma makedirs_stat_dir:
  assumes "makedirs w dir = (e, w1)" and "stat w p = Some Dir"
  shows "stat w1 p = Some Dir"
  using makedirs_nodes [OF assms(1), of "components p"] assms(2)
  by (auto simp: stat_def split: option.splits node.splits if_splits)

lemma makedirs_dir_exists:
  assumes "makedirs w dir = (None, w1)" and "components dir \<noteq> []"
  shows "nodes w1 (components dir) = Some Dir"
proof -
  from makedirs_ok(4) [OF assms(1)]
  have "mkdirs (nodes w) [] (components dir) = (None, nodes w1)" .
  from mkdirs_made [OF this, of "length (components dir) - 1"] assms(2)
  show ?thesis by simp
qed

lemma download_cases:
  assumes "makedirs w dir = (None, w1)" and "expected_sha256 url = Inr e"
  shows "download_pretrained_from_url net hexdigest url (Some dir) w =
           (case stat w1 (path_join dir (basename url)) of
              Some Dir \<Rightarrow>
                (Inl (RuntimeError (not_regular_message (path_join dir (basename url)))), w1)
            | Some (File c) \<Rightarrow>
                if e = [] \<or> startswith (hexdigest c) e
                then (Inr (path_join dir (basename url)), w1)
                else fetch net hexdigest url e (path_join dir (basename url))
                       (w1\<lparr>warnings := warnings w1 @
                              [mismatch_warning (path_join dir (basename url))]\<rparr>)
            | None \<Rightarrow> fetch net hexdigest url e (path_join dir (basename url)) w1)"
  using assms
  by (auto simp: download_pretrained_from_url_def path_exists_def isfile_def read_file_def Let_def
           split: option.splits node.splits)

lemma target_degenerate:
  assumes mk: "makedirs w dir = (None, w1)"
    and f: "basename url = [] \<or> basename url = ''.''"
  shows "stat w1 (path_join dir (basename url)) = Some Dir"
proof -
  have dir: "dir \<noteq> []" using makedirs_ok(1) [OF mk] .
  have c: "components (path_join dir (basename url)) = components dir"
    using components_join [OF basename_no_slash dir, of url] f by auto
  have ne: "path_join dir (basename url) \<noteq> []"
    using dir by (rule path_join_nonempty)
  show ?thesis
  proof (cases "components dir = []")
    case True
    with c ne show ?thesis by (simp add: stat_def)
  next
    case False
    from makedirs_dir_exists [OF mk False] c ne False show ?thesis
      by (simp add: stat_def)
  qed
qed

lemma target_proper:
  assumes dir: "dir \<noteq> []"
    and f: "basename url \<noteq> []" "basename url \<noteq> ''.''"
  shows "components (path_join dir (basename url)) = components dir @ [basename url]"
    and "\<not> dir_only (path_join dir (basename url))"
    and "stat w' (path_join dir (basename url)) = nodes w' (components dir @ [basename url])"
proof -
  show c: "components (path_join dir (basename url)) = components dir @ [basename url]"
    using components_join [OF basename_no_slash dir, of url] f by auto
  show d: "\<not> dir_only (path_join dir (basename url))"
    using dir_only_join [OF basename_no_slash dir, of url] f by auto
  show "stat w' (path_join dir (basename url)) = nodes w' (components dir @ [basename url])"
    using c d path_join_nonempty [OF dir, of "basename url"]
    by (auto simp: stat_def split: option.splits node.splits)
qed

lemma open_wb_target:
  assumes mk: "makedirs w dir = (None, w1)"
    and nd: "stat w1 (path_join dir (basename url)) \<noteq> Some Dir"
    and same: "nodes w2 = nodes w1"
  shows "open_wb w2 (path_join dir (basename url)) =
           Inr (w2\<lparr>nodes := (nodes w2)(components (path_join dir (basename url)) \<mapsto> File [])\<rparr>)"
proof -
  have dir: "dir \<noteq> []" using makedirs_ok(1) [OF mk] .
  from nd target_degenerate [OF mk, of url]
  have f: "basename url \<noteq> []" "basename url \<noteq> ''.''" by auto
  note tp = target_proper [OF dir f]
  have ne: "path_join dir (basename url) \<noteq> []"
    using dir by (rule path_join_nonempty)
  have parent: "components dir = [] \<or> nodes w1 (components dir) = Some Dir"
    using makedirs_dir_exists [OF mk] by blast
  from nd tp(3) [of w1] have here: "nodes w1 (components dir @ [basename url]) \<noteq> Some Dir"
    by simp
  show ?thesis
    using parent here ne tp(2)
    by (auto simp: open_wb_def tp(1) same split: option.splits node.splits)
qed

lemma read_written:
  assumes "p \<noteq> []" and "components p \<noteq> []" and "\<not> dir_only p"
  shows "read_file (w\<lparr>nodes := (ns)(components p \<mapsto> File c)\<rparr>) p = Inr c"
  using assms by (simp add: read_file_def stat_def)

lemma fetch_target:
  assumes mk: "makedirs w dir = (None, w1)"
    and nd: "stat w1 (path_join dir (basename url)) \<noteq> Some Dir"
    and same: "nodes w2 = nodes w1"
  shows "fetch net hexdigest url e (path_join dir (basename url)) w2 =
           (case net url of
              None \<Rightarrow> (Inl URLError, w2\<lparr>requests := requests w2 @ [url]\<rparr>)
            | Some source \<Rightarrow>
                (case content_length source of
                   None \<Rightarrow>
                     (Inl TypeError,
                      w2\<lparr>requests := requests w2 @ [url],
                         nodes := (nodes w2)(components (path_join dir (basename url)) \<mapsto> File [])\<rparr>)
                 | Some n \<Rightarrow>
                     (if e \<noteq> [] \<and> \<not> startswith (hexdigest (body source)) e
                      then Inl (RuntimeError mismatch_message)
                      else Inr (path_join dir (basename url)),
                      w2\<lparr>requests := requests w2 @ [url],
                         nodes := (nodes w2)(components (path_join dir (basename url)) \<mapsto>
                                    File (body source))\<rparr>)))"
proof -
  have dir: "dir \<noteq> []" using makedirs_ok(1) [OF mk] .
  from nd target_degenerate [OF mk, of url]
  have f: "basename url \<noteq> []" "basename url \<noteq> ''.''" by auto
  note tp = target_proper [OF dir f]
  have ne: "path_join dir (basename url) \<noteq> []"
    using dir by (rule path_join_nonempty)
  have cne: "components (path_join dir (basename url)) \<noteq> []"
    by (simp add: tp(1))
  have ow: "open_wb (w2\<lparr>requests := requests w2 @ [url]\<rparr>) (path_join dir (basename url)) =
           Inr (w2\<lparr>requests := requests w2 @ [url],
                   nodes := (nodes w2)(components (path_join dir (basename url)) \<mapsto> File [])\<rparr>)"
    using open_wb_target [OF mk nd, of "w2\<lparr>requests := requests w2 @ [url]\<rparr>"] same by simp
  show ?thesis
    by (simp add: fetch_def Let_def ow read_written [OF ne cne tp(2)] copy_chunks_eq
          write_file_def split: option.splits)
qed

lemma stat_not_regular:
  "path_exists w p \<and> \<not> isfile w p \<longleftrightarrow> stat w p = Some Dir"
  by (auto simp: path_exists_def isfile_def split: option.splits node.splits)

lemma makedirs_again:
  assumes mk: "makedirs w dir = (None, w1)"
    and same: "\<forall>k < length (components dir).
                 nodes w2 (take (Suc k) (components dir)) = nodes w1 (take (Suc k) (components dir))"
  shows "makedirs w2 dir = (None, w2)"
proof -
  have made: "mkdirs (nodes w) [] (components dir) = (None, nodes w1)"
    using makedirs_ok(4) [OF mk] .
  have "\<forall>k < length (components dir). nodes w2 ([] @ take (Suc k) (components dir)) = Some Dir"
    using mkdirs_made [OF made] same by simp
  then have "mkdirs (nodes w2) [] (components dir) = (None, nodes w2)"
    by (rule mkdirs_idem)
  with makedirs_ok(1) [OF mk] show ?thesis
    by (simp add: makedirs_def)
qed

lemma isfile_read: "isfile w p \<and> read_file w p = Inr c \<longleftrightarrow> stat w p = Some (File c)"
  by (auto simp: isfile_def read_file_def split: option.splits node.splits)

lemma read_file_stat: "read_file w p = Inr c \<longleftrightarrow> stat w p = Some (File c)"
  by (auto simp: read_file_def split: option.splits node.splits)

section \<open>The download function\<close>

text \<open>
  Claim C2, as amended. When a call of \<open>download_pretrained_from_url\<close> returns a path,
  a second call with the same URL and cache directory, made in the world the first call
  left behind, returns the same path and leaves that world as it is: it makes no request
  and writes nothing. The first call itself made exactly one request, unless the target
  was already a regular file that passes the check (no hash is derivable from the URL, or
  the digest of the file starts with the expected hash); then it made none.
\<close>

theorem download_twice:
  fixes net hexdigest url cache_dir w
  assumes first: "download_pretrained_from_url net hexdigest url cache_dir w = (Inr path, w')"
  shows "download_pretrained_from_url net hexdigest url cache_dir w' = (Inr path, w') \<and>
         (\<exists>expected. expected_sha256 url = Inr expected \<and>
            requests w' =
              (case stat w path of
                 Some (File c) \<Rightarrow>
                   if expected = [] \<or> startswith (hexdigest c) expected then requests w
                   else requests w @ [url]
               | _ \<Rightarrow> requests w @ [url]))"
proof -
  from first obtain dir where cd: "cache_dir = Some dir"
    by (cases cache_dir) (auto simp: download_pretrained_from_url_def)
  obtain eo w1 where mk0: "makedirs w dir = (eo, w1)"
    by (cases "makedirs w dir")
  with first cd have mk: "makedirs w dir = (None, w1)"
    by (cases eo) (auto simp: download_pretrained_from_url_def)
  from first cd mk obtain expected where ex: "expected_sha256 url = Inr expected"
    by (cases "expected_sha256 url") (auto simp: download_pretrained_from_url_def)
  define t where "t = path_join dir (basename url)"
  note log = makedirs_ok(2,3) [OF mk]
  note dc = download_cases [OF mk ex, of net hexdigest, folded t_def]
  have nd: "stat w1 t \<noteq> Some Dir"
    using dc first cd by (auto split: option.splits node.splits)
  then have nd': "stat w1 (path_join dir (basename url)) \<noteq> Some Dir"
    by (simp add: t_def)
  have dir: "dir \<noteq> []" using makedirs_ok(1) [OF mk] .
  from nd' target_degenerate [OF mk, of url]
  have f: "basename url \<noteq> []" "basename url \<noteq> ''.''" by auto
  note tp = target_proper [OF dir f, folded t_def]
  have again: "makedirs w2 dir = (None, w2)"
    if "nodes w2 = nodes w1 \<or> (\<exists>b. nodes w2 = (nodes w1)(components t \<mapsto> File b))" for w2
  proof (rule makedirs_again [OF mk], intro allI impI)
    fix k assume "k < length (components dir)"
    then have "take (Suc k) (components dir) \<noteq> components t"
      by (simp add: tp(1)) (metis length_take length_append_singleton min.absorb2 Suc_leI
          nat_less_le less_Suc_eq_le not_less_eq_eq)
    with that show "nodes w2 (take (Suc k) (components dir)) = nodes w1 (take (Suc k) (components dir))"
      by auto
  qed
  have stat_file: "stat w t = stat w1 t" if "stat w1 t \<noteq> Some Dir"
    using makedirs_stat_file [OF mk, of t] that
    by (metis makedirs_stat_dir [OF mk] node.exhaust option.exhaust)
  show ?thesis
  proof (cases "\<exists>c. stat w1 t = Some (File c) \<and> (expected = [] \<or> startswith (hexdigest c) expected)")
    case True
    then obtain c where c: "stat w1 t = Some (File c)"
      and ok: "expected = [] \<or> startswith (hexdigest c) expected" by blast
    from dc c ok first cd have res: "path = t" "w' = w1" by auto
    have "makedirs w1 dir = (None, w1)" by (rule again) simp
    from download_cases [OF this ex, of net hexdigest, folded t_def] c ok
    have "download_pretrained_from_url net hexdigest url (Some dir) w1 = (Inr t, w1)" by auto
    moreover from c stat_file have "stat w t = Some (File c)" by simp
    ultimately show ?thesis using res cd ex ok log by auto
  next
    case False
    define w2 where "w2 = (case stat w1 t of None \<Rightarrow> w1
                          | Some n \<Rightarrow> w1\<lparr>warnings := warnings w1 @ [mismatch_warning t]\<rparr>)"
    have n2: "nodes w2 = nodes w1" and r2: "requests w2 = requests w"
      using log by (auto simp: w2_def split: option.splits)
    from dc False nd first cd have run: "fetch net hexdigest url expected t w2 = (Inr path, w')"
      by (auto simp: w2_def split: option.splits node.splits if_splits)
    note ft = fetch_target [OF mk nd' n2, of net hexdigest expected, folded t_def]
    from run ft obtain source n where src: "net url = Some source" "content_length source = Some n"
      and ok: "expected = [] \<or> startswith (hexdigest (body source)) expected"
      and res: "path = t"
        "w' = w2\<lparr>requests := requests w2 @ [url],
                  nodes := (nodes w2)(components t \<mapsto> File (body source))\<rparr>"
      by (auto split: option.splits if_splits)
    have mk2: "makedirs w' dir = (None, w')"
      by (rule again) (auto simp: res n2)
    have "stat w' t = Some (File (body source))"
      by (simp add: tp(3) res tp(1) [symmetric])
    with download_cases [OF mk2 ex, of net hexdigest, folded t_def] ok
    have "download_pretrained_from_url net hexdigest url (Some dir) w' = (Inr t, w')" by auto
    moreover have "requests w' = requests w @ [url]" by (simp add: res r2)
    moreover have "(case stat w t of
                 Some (File c) \<Rightarrow>
                   if expected = [] \<or> startswith (hexdigest c) expected then requests w
                   else requests w @ [url]
               | _ \<Rightarrow> requests w @ [url]) = requests w @ [url]"
      using False stat_file [OF nd] by (auto split: option.splits node.splits)
    ultimately show ?thesis using res cd ex by auto
  qed
qed

text \<open>
  The theorem at a cold cache: the first call downloads, the second returns the same path
  without a request.
\<close>

theorem download_twice_witness:
  "fst (download_pretrained_from_url
          (\<lambda>u. Some \<lparr>content_length = Some 3, body = ''abc''\<rparr>) (\<lambda>c. c)
          ''mlfoundations/m-ab.pt'' (Some ''c'')
          \<lparr>nodes = Map.empty, requests = [], warnings = []\<rparr>) = Inr ''c/m-ab.pt'' \<and>
   requests (snd (download_pretrained_from_url
          (\<lambda>u. Some \<lparr>content_length = Some 3, body = ''abc''\<rparr>) (\<lambda>c. c)
          ''mlfoundations/m-ab.pt'' (Some ''c'')
          \<lparr>nodes = Map.empty, requests = [], warnings = []\<rparr>)) = [''mlfoundations/m-ab.pt''] \<and>
   download_pretrained_from_url
     (\<lambda>u. Some \<lparr>content_length = Some 3, body = ''abc''\<rparr>) (\<lambda>c. c)
     ''mlfoundations/m-ab.pt'' (Some ''c'')
     (snd (download_pretrained_from_url
          (\<lambda>u. Some \<lparr>content_length = Some 3, body = ''abc''\<rparr>) (\<lambda>c. c)
          ''mlfoundations/m-ab.pt'' (Some ''c'')
          \<lparr>nodes = Map.empty, requests = [], warnings = []\<rparr>))
   = (Inr ''c/m-ab.pt'',
      snd (download_pretrained_from_url
          (\<lambda>u. Some \<lparr>content_length = Some 3, body = ''abc''\<rparr>) (\<lambda>c. c)
          ''mlfoundations/m-ab.pt'' (Some ''c'')
          \<lparr>nodes = Map.empty, requests = [], warnings = []\<rparr>))"
  (is "fst ?first = Inr ?p \<and> requests (snd ?first) = ?log \<and> ?second = (Inr ?p, snd ?first)")
proof -
  have path: "fst ?first = Inr ?p" by code_simp
  have log: "requests (snd ?first) = ?log" by code_simp
  from path have "?first = (Inr ?p, snd ?first)"
    by (simp add: prod_eq_iff)
  then have "?second = (Inr ?p, snd ?first)"
    using download_twice by blast
  with path log show ?thesis by blast
qed

text \<open>
  Claim C2 as stated fails in two ways. With the file already in the cache, two calls make
  no request at all. With a server whose content does not match the hash in the URL, the
  first call raises, and the second call downloads again and raises again: two requests.
\<close>

theorem download_twice_counterexample:
  "fst (download_pretrained_from_url
          (\<lambda>u. Some \<lparr>content_length = Some 3, body = ''abc''\<rparr>) (\<lambda>c. c)
          ''mlfoundations/m-ab.pt'' (Some ''c'')
          \<lparr>nodes = [[''c''] \<mapsto> Dir, [''c'', ''m-ab.pt''] \<mapsto> File ''abc''],
            requests = [], warnings = []\<rparr>) = Inr ''c/m-ab.pt'' \<and>
   requests (snd (download_pretrained_from_url
          (\<lambda>u. Some \<lparr>content_length = Some 3, body = ''abc''\<rparr>) (\<lambda>c. c)
          ''mlfoundations/m-ab.pt'' (Some ''c'')
          (snd (download_pretrained_from_url
             (\<lambda>u. Some \<lparr>content_length = Some 3, body = ''abc''\<rparr>) (\<lambda>c. c)
             ''mlfoundations/m-ab.pt'' (Some ''c'')
             \<lparr>nodes = [[''c''] \<mapsto> Dir, [''c'', ''m-ab.pt''] \<mapsto> File ''abc''],
               requests = [], warnings = []\<rparr>)))) = [] \<and>
   fst (download_pretrained_from_url
          (\<lambda>u. Some \<lparr>content_length = Some 3, body = ''xyz''\<rparr>) (\<lambda>c. c)
          ''mlfoundations/m-ab.pt'' (Some ''c'')
          (snd (download_pretrained_from_url
             (\<lambda>u. Some \<lparr>content_length = Some 3, body = ''xyz''\<rparr>) (\<lambda>c. c)
             ''mlfoundations/m-ab.pt'' (Some ''c'')
             \<lparr>nodes = Map.empty, requests = [], warnings = []\<rparr>)))
     = Inl (RuntimeError ''Model has been downloaded but the SHA256 checksum does not not match'') \<and>
   requests (snd (download_pretrained_from_url
          (\<lambda>u. Some \<lparr>content_length = Some 3, body = ''xyz''\<rparr>) (\<lambda>c. c)
          ''mlfoundations/m-ab.pt'' (Some ''c'')
          (snd (download_pretrained_from_url
             (\<lambda>u. Some \<lparr>content_length = Some 3, body = ''xyz''\<rparr>) (\<lambda>c. c)
             ''mlfoundations/m-ab.pt'' (Some ''c'')
             \<lparr>nodes = Map.empty, requests = [], warnings = []\<rparr>))))
     = [''mlfoundations/m-ab.pt'', ''mlfoundations/m-ab.pt'']"
  by code_simp

text \<open>
  Claim C3. When an expected hash is derivable from the URL (\<open>expected_sha256\<close> is not
  empty) and the call made a request (the file was fetched, not taken from the cache), and
  the digest of the content the server sent does not start with the expected hash, the
  call raises: the \<open>RuntimeError\<close> of line 65, or the \<open>TypeError\<close> of line 55 when the
  response has no \<open>Content-Length\<close>. It never returns the path.
\<close>

theorem download_checksum_mismatch_raises:
  fixes net hexdigest url cache_dir w
  defines "r \<equiv> download_pretrained_from_url net hexdigest url cache_dir w"
  assumes ex: "expected_sha256 url = Inr expected" and ne: "expected \<noteq> []"
    and net: "net url = Some source"
    and bad: "\<not> startswith (hexdigest (body source)) expected"
    and fresh: "requests (snd r) \<noteq> requests w"
  shows "fst r = Inl (case content_length source of
                        None \<Rightarrow> TypeError
                      | Some n \<Rightarrow> RuntimeError mismatch_message)"
proof (cases cache_dir)
  case None
  with fresh show ?thesis by (simp add: r_def download_pretrained_from_url_def)
next
  case (Some dir)
  obtain eo w1 where mk: "makedirs w dir = (eo, w1)"
    by (cases "makedirs w dir")
  note log = makedirs_log [OF mk]
  show ?thesis
  proof (cases eo)
    case (Some e)
    with mk log fresh \<open>cache_dir = Some dir\<close> show ?thesis
      by (simp add: r_def download_pretrained_from_url_def)
  next
    case None
    with mk have mk': "makedirs w dir = (None, w1)" by simp
    note dc = download_cases [OF mk' ex, of net hexdigest]
    show ?thesis
    proof (cases "stat w1 (path_join dir (basename url))")
      case None
      then have nd: "stat w1 (path_join dir (basename url)) \<noteq> Some Dir" by simp
      from fetch_target [OF mk' nd refl, of net hexdigest expected] dc None net bad ne
      show ?thesis
        by (simp add: r_def \<open>cache_dir = Some dir\<close> split: option.splits)
    next
      case (Some n)
      show ?thesis
      proof (cases n)
        case Dir
        with Some dc log fresh show ?thesis
          by (simp add: r_def \<open>cache_dir = Some dir\<close>)
      next
        case (File c)
        with Some have nd: "stat w1 (path_join dir (basename url)) \<noteq> Some Dir" by simp
        show ?thesis
        proof (cases "startswith (hexdigest c) expected")
          case True
          with Some File dc log fresh show ?thesis
            by (simp add: r_def \<open>cache_dir = Some dir\<close>)
        next
          case False
          from fetch_target [OF mk' nd, of "w1\<lparr>warnings := warnings w1 @
                  [mismatch_warning (path_join dir (basename url))]\<rparr>" net hexdigest expected]
            dc Some File False net bad ne
          show ?thesis
            by (simp add: r_def \<open>cache_dir = Some dir\<close> split: option.splits)
        qed
      qed
    qed
  qed
qed

text \<open>The theorem at a cold cache and a server that sends the wrong content.\<close>

theorem download_checksum_mismatch_raises_witness:
  "expected_sha256 ''mlfoundations/m-ab.pt'' = Inr ''ab'' \<and>
   requests (snd (download_pretrained_from_url
          (\<lambda>u. Some \<lparr>content_length = Some 3, body = ''xyz''\<rparr>) (\<lambda>c. c)
          ''mlfoundations/m-ab.pt'' (Some ''c'')
          \<lparr>nodes = Map.empty, requests = [], warnings = []\<rparr>)) = [''mlfoundations/m-ab.pt''] \<and>
   fst (download_pretrained_from_url
          (\<lambda>u. Some \<lparr>content_length = Some 3, body = ''xyz''\<rparr>) (\<lambda>c. c)
          ''mlfoundations/m-ab.pt'' (Some ''c'')
          \<lparr>nodes = Map.empty, requests = [], warnings = []\<rparr>)
     = Inl (RuntimeError mismatch_message)"
  (is "?ex \<and> requests (snd ?r) = ?log \<and> fst ?r = ?err")
proof -
  have ex: ?ex by code_simp
  have log: "requests (snd ?r) = ?log" by code_simp
  have bad: "\<not> startswith ((\<lambda>c. c) (body \<lparr>content_length = Some 3, body = ''xyz''\<rparr>)) ''ab''"
    by code_simp
  have "fst ?r = Inl (case content_length \<lparr>content_length = Some 3, body = ''xyz''\<rparr> of
                        None \<Rightarrow> TypeError | Some n \<Rightarrow> RuntimeError mismatch_message)"
    by (rule download_checksum_mismatch_raises
          [where net = "\<lambda>u. Some \<lparr>content_length = Some 3, body = ''xyz''\<rparr>"
             and hexdigest = "\<lambda>c. c" and expected = "''ab''", OF ex _ _ bad])
       (simp_all add: log)
  with ex log show ?thesis by simp
qed

text \<open>
  Claim C4, as amended: the claim holds for the calls whose cache directory
  \<open>os.makedirs\<close> accepts. When the target is a regular file of content \<open>c\<close>:
  with no hash derivable from the URL, or with a digest of \<open>c\<close> that starts with the
  expected hash, the call returns the target at once, in the world \<open>makedirs\<close> left,
  with no request, no warning and the file as it was. With an expected hash that the
  digest does not start with, the call warns once and makes one request; when the request
  yields a body, the file holds that body afterwards and the call returns the target or
  raises according to the digest of the new content.
\<close>

theorem download_existing_regular_file:
  fixes net hexdigest url dir w
  defines "t \<equiv> path_join dir (basename url)"
    and "r \<equiv> download_pretrained_from_url net hexdigest url (Some dir) w"
  assumes mk: "makedirs w dir = (None, w1)"
    and isf: "isfile w t" and content: "read_file w t = Inr c"
    and ex: "expected_sha256 url = Inr expected"
  shows "(expected = [] \<or> startswith (hexdigest c) expected \<longrightarrow> r = (Inr t, w1)) \<and>
         (expected \<noteq> [] \<and> \<not> startswith (hexdigest c) expected \<longrightarrow>
            warnings (snd r) = warnings w @ [mismatch_warning t] \<and>
            requests (snd r) = requests w @ [url] \<and>
            (\<forall>source n. net url = Some source \<and> content_length source = Some n \<longrightarrow>
               read_file (snd r) t = Inr (body source) \<and>
               fst r = (if startswith (hexdigest (body source)) expected then Inr t
                        else Inl (RuntimeError mismatch_message)))) \<and>
         requests w1 = requests w \<and> warnings w1 = warnings w \<and> read_file w1 t = Inr c"
proof -
  from content have st: "stat w t = Some (File c)"
    by (simp add: read_file_stat)
  then have st1: "stat w1 t = Some (File c)"
    using makedirs_stat_file [OF mk] by simp
  then have nd: "stat w1 (path_join dir (basename url)) \<noteq> Some Dir"
    by (simp add: t_def)
  note log = makedirs_ok(2,3) [OF mk]
  note dc = download_cases [OF mk ex, of net hexdigest, folded t_def r_def]
  have hit: "r = (Inr t, w1)" if "expected = [] \<or> startswith (hexdigest c) expected"
    using dc st1 that by auto
  have miss: "r = fetch net hexdigest url expected t (w1\<lparr>warnings := warnings w1 @ [mismatch_warning t]\<rparr>)"
    if "expected \<noteq> [] \<and> \<not> startswith (hexdigest c) expected"
    using dc st1 that by auto
  note ft = fetch_target [OF mk nd, of "w1\<lparr>warnings := warnings w1 @ [mismatch_warning t]\<rparr>"
      net hexdigest expected, folded t_def, simplified]
  have dir: "dir \<noteq> []" using makedirs_ok(1) [OF mk] .
  from nd target_degenerate [OF mk, of url]
  have f: "basename url \<noteq> []" "basename url \<noteq> ''.''" by auto
  note tp = target_proper [OF dir f, folded t_def]
  have rd: "read_file (w'\<lparr>nodes := (ns)(components t \<mapsto> File b)\<rparr>) t = Inr b" for w' ns b
    using read_written [of t] tp(1,2) path_join_nonempty [OF dir, of "basename url"]
    by (simp add: t_def)
  have part2: "warnings (snd r) = warnings w @ [mismatch_warning t] \<and>
            requests (snd r) = requests w @ [url] \<and>
            (\<forall>source n. net url = Some source \<and> content_length source = Some n \<longrightarrow>
               read_file (snd r) t = Inr (body source) \<and>
               fst r = (if startswith (hexdigest (body source)) expected then Inr t
                        else Inl (RuntimeError mismatch_message)))"
    if m: "expected \<noteq> [] \<and> \<not> startswith (hexdigest c) expected"
    using miss [OF m] ft log m rd
    by (auto split: option.splits)
  from st1 have "read_file w1 t = Inr c" by (simp add: read_file_stat)
  with hit part2 log show ?thesis by blast
qed

text \<open>
  The theorem at a stale cached file that is replaced, and at a URL of an unknown
  publisher whose cached file is returned though the network is down.
\<close>

theorem download_existing_regular_file_witness:
  "fst (download_pretrained_from_url
          (\<lambda>u. Some \<lparr>content_length = Some 3, body = ''abc''\<rparr>) (\<lambda>c. c)
          ''mlfoundations/m-ab.pt'' (Some ''c'')
          \<lparr>nodes = [[''c''] \<mapsto> Dir, [''c'', ''m-ab.pt''] \<mapsto> File ''old''],
            requests = [], warnings = []\<rparr>) = Inr ''c/m-ab.pt'' \<and>
   warnings (snd (download_pretrained_from_url
          (\<lambda>u. Some \<lparr>content_length = Some 3, body = ''abc''\<rparr>) (\<lambda>c. c)
          ''mlfoundations/m-ab.pt'' (Some ''c'')
          \<lparr>nodes = [[''c''] \<mapsto> Dir, [''c'', ''m-ab.pt''] \<mapsto> File ''old''],
            requests = [], warnings = []\<rparr>)) = [mismatch_warning ''c/m-ab.pt''] \<and>
   requests (snd (download_pretrained_from_url
          (\<lambda>u. Some \<lparr>content_length = Some 3, body = ''abc''\<rparr>) (\<lambda>c. c)
          ''mlfoundations/m-ab.pt'' (Some ''c'')
          \<lparr>nodes = [[''c''] \<mapsto> Dir, [''c'', ''m-ab.pt''] \<mapsto> File ''old''],
            requests = [], warnings = []\<rparr>)) = [''mlfoundations/m-ab.pt''] \<and>
   read_file (snd (download_pretrained_from_url
          (\<lambda>u. Some \<lparr>content_length = Some 3, body = ''abc''\<rparr>) (\<lambda>c. c)
          ''mlfoundations/m-ab.pt'' (Some ''c'')
          \<lparr>nodes = [[''c''] \<mapsto> Dir, [''c'', ''m-ab.pt''] \<mapsto> File ''old''],
            requests = [], warnings = []\<rparr>)) ''c/m-ab.pt'' = Inr ''abc'' \<and>
   download_pretrained_from_url
          (\<lambda>u. None) (\<lambda>c. c) ''example.org/m.pt'' (Some ''c'')
          \<lparr>nodes = [[''c''] \<mapsto> Dir, [''c'', ''m.pt''] \<mapsto> File ''old''],
            requests = [], warnings = []\<rparr>
     = (Inr ''c/m.pt'',
        snd (makedirs \<lparr>nodes = [[''c''] \<mapsto> Dir, [''c'', ''m.pt''] \<mapsto> File ''old''],
                       requests = [], warnings = []\<rparr> ''c''))"
  (is "fst ?r = Inr ?t \<and> warnings (snd ?r) = ?ws \<and> requests (snd ?r) = ?log \<and>
       read_file (snd ?r) ?t = ?new \<and> ?r2 = (Inr ?t2, snd (makedirs ?w2 ''c''))")
proof -
  let ?w = "\<lparr>nodes = [[''c''] \<mapsto> Dir, [''c'', ''m-ab.pt''] \<mapsto> File ''old''],
             requests = [], warnings = []\<rparr>"
  let ?net = "\<lambda>u::string. Some \<lparr>content_length = Some 3, body = ''abc''\<rparr>"
  have mk: "makedirs ?w ''c'' = (None, snd (makedirs ?w ''c''))"
    by (simp add: prod_eq_iff) code_simp
  have t: "path_join ''c'' (basename ''mlfoundations/m-ab.pt'') = ?t" by code_simp
  have isf: "isfile ?w (path_join ''c'' (basename ''mlfoundations/m-ab.pt''))" by code_simp
  have rd: "read_file ?w (path_join ''c'' (basename ''mlfoundations/m-ab.pt'')) = Inr ''old''"
    by code_simp
  have ex: "expected_sha256 ''mlfoundations/m-ab.pt'' = Inr ''ab''" by code_simp
  have miss: "''ab'' \<noteq> [] \<and> \<not> startswith ((\<lambda>c. c) ''old'') ''ab''" by code_simp
  have net: "?net ''mlfoundations/m-ab.pt'' = Some \<lparr>content_length = Some 3, body = ''abc''\<rparr> \<and>
             content_length \<lparr>content_length = Some 3, body = ''abc''\<rparr> = Some 3" by simp
  have hit: "startswith ((\<lambda>c. c) (body \<lparr>content_length = Some 3, body = ''abc''\<rparr>)) ''ab''"
    by code_simp
  from download_existing_regular_file [where net = ?net and hexdigest = "\<lambda>c. c", OF mk isf rd ex]
    miss net hit
  have a: "fst ?r = Inr ?t \<and> warnings (snd ?r) = ?ws \<and> requests (snd ?r) = ?log \<and>
       read_file (snd ?r) ?t = ?new"
    by (simp add: t)
  have mk2: "makedirs ?w2 ''c'' = (None, snd (makedirs ?w2 ''c''))"
    by (simp add: prod_eq_iff) code_simp
  have t2: "path_join ''c'' (basename ''example.org/m.pt'') = ?t2" by code_simp
  have isf2: "isfile ?w2 (path_join ''c'' (basename ''example.org/m.pt''))" by code_simp
  have rd2: "read_file ?w2 (path_join ''c'' (basename ''example.org/m.pt'')) = Inr ''old''"
    by code_simp
  have ex2: "expected_sha256 ''example.org/m.pt'' = Inr []" by code_simp
  from download_existing_regular_file
         [where net = "\<lambda>u. None" and hexdigest = "\<lambda>c. c", OF mk2 isf2 rd2 ex2]
  have b: "?r2 = (Inr ?t2, snd (makedirs ?w2 ''c''))"
    by (simp add: t2)
  from a b show ?thesis by blast
qed

text \<open>
  Claim C4 as stated fails for the empty cache directory: the target \<open>m.pt\<close> is a
  regular file and no hash is derivable, but \<open>os.makedirs('')\<close> raises before the file
  is looked at.
\<close>

theorem download_existing_regular_file_counterexample:
  "isfile \<lparr>nodes = [[''m.pt''] \<mapsto> File ''old''], requests = [], warnings = []\<rparr>
     (path_join [] (basename ''example.org/m.pt'')) \<and>
   expected_sha256 ''example.org/m.pt'' = Inr [] \<and>
   fst (download_pretrained_from_url (\<lambda>u. None) (\<lambda>c. c) ''example.org/m.pt'' (Some [])
          \<lparr>nodes = [[''m.pt''] \<mapsto> File ''old''], requests = [], warnings = []\<rparr>)
     = Inl FileNotFoundError"
  by code_simp

text \<open>
  Claim C5. When the target path exists and is not a regular file, the call raises and
  makes no request. The error is the \<open>RuntimeError\<close> of line 43 whenever
  \<open>os.makedirs\<close> and the derivation of the hash got that far.
\<close>

theorem download_target_not_regular:
  fixes net hexdigest url dir w
  defines "r \<equiv> download_pretrained_from_url net hexdigest url (Some dir) w"
  assumes ex: "path_exists w (path_join dir (basename url))"
    and nf: "\<not> isfile w (path_join dir (basename url))"
  shows "(\<exists>e. fst r = Inl e) \<and> requests (snd r) = requests w \<and>
         (\<forall>w1 expected. makedirs w dir = (None, w1) \<and> expected_sha256 url = Inr expected \<longrightarrow>
            r = (Inl (RuntimeError (not_regular_message (path_join dir (basename url)))), w1))"
proof -
  from ex nf have d: "stat w (path_join dir (basename url)) = Some Dir"
    using stat_not_regular by blast
  obtain eo w1 where mk: "makedirs w dir = (eo, w1)"
    by (cases "makedirs w dir")
  note log = makedirs_log [OF mk]
  show ?thesis
  proof (cases eo)
    case (Some e)
    with mk log show ?thesis
      by (simp add: r_def download_pretrained_from_url_def)
  next
    case None
    with mk have mk': "makedirs w dir = (None, w1)" by simp
    have d1: "stat w1 (path_join dir (basename url)) = Some Dir"
      using makedirs_stat_dir [OF mk d] .
    show ?thesis
    proof (cases "expected_sha256 url")
      case (Inl e)
      with mk' log show ?thesis
        by (simp add: r_def download_pretrained_from_url_def)
    next
      case (Inr expected)
      from download_cases [OF mk' Inr, of net hexdigest] d1 log Inr mk' show ?thesis
        by (simp add: r_def)
    qed
  qed
qed

text \<open>The theorem at a target that is a directory.\<close>

theorem download_target_not_regular_witness:
  "path_exists \<lparr>nodes = [[''c''] \<mapsto> Dir, [''c'', ''m.pt''] \<mapsto> Dir], requests = [], warnings = []\<rparr>
     (path_join ''c'' (basename ''example.org/m.pt'')) \<and>
   \<not> isfile \<lparr>nodes = [[''c''] \<mapsto> Dir, [''c'', ''m.pt''] \<mapsto> Dir], requests = [], warnings = []\<rparr>
     (path_join ''c'' (basename ''example.org/m.pt'')) \<and>
   fst (download_pretrained_from_url (\<lambda>u. Some \<lparr>content_length = Some 3, body = ''abc''\<rparr>)
          (\<lambda>c. c) ''example.org/m.pt'' (Some ''c'')
          \<lparr>nodes = [[''c''] \<mapsto> Dir, [''c'', ''m.pt''] \<mapsto> Dir], requests = [], warnings = []\<rparr>)
     = Inl (RuntimeError ''c/m.pt exists and is not a regular file'') \<and>
   requests (snd (download_pretrained_from_url (\<lambda>u. Some \<lparr>content_length = Some 3, body = ''abc''\<rparr>)
          (\<lambda>c. c) ''example.org/m.pt'' (Some ''c'')
          \<lparr>nodes = [[''c''] \<mapsto> Dir, [''c'', ''m.pt''] \<mapsto> Dir], requests = [], warnings = []\<rparr>))
     = []"
  (is "?ex \<and> ?nf \<and> fst ?r = ?err \<and> requests (snd ?r) = []")
proof -
  have ex: ?ex by code_simp
  have nf: ?nf by code_simp
  have err: "fst ?r = ?err" by code_simp
  from download_target_not_regular [OF ex nf] have "requests (snd ?r) = []"
    by simp
  with ex nf err show ?thesis by blast
qed

section \<open>Properties of the tensor operations\<close>

lemma bind_Inr_iff: "bind r f = Inr y \<longleftrightarrow> (\<exists>x. r = Inr x \<and> f x = Inr y)"
  by (cases r) (auto simp: bind_def)

lemma bind_Inr: "bind (Inr x) f = f x"
  by (simp add: bind_def)

lemma bind_Inl: "bind (Inl e) f = Inl e"
  by (simp add: bind_def)

lemma permute_102:
  "shape t = [a, b, c] \<Longrightarrow> \<exists>t'. permute t [1, 0, 2] = Inr t' \<and> shape t' = [b, a, c]"
  by (simp add: permute_def Let_def)

lemma permute_120:
  "shape t = [a, b, c] \<Longrightarrow> \<exists>t'. permute t [1, 2, 0] = Inr t' \<and> shape t' = [b, c, a]"
  by (simp add: permute_def Let_def)

lemma permute_201:
  "shape t = [a, b, c] \<Longrightarrow> \<exists>t'. permute t [2, 0, 1] = Inr t' \<and> shape t' = [c, a, b]"
  by (simp add: permute_def Let_def)

lemma reshape_16_16:
  "reshape t [int b, int d, 16, 16] =
     (if prod_list (shape t) = b * d * 256
      then Inr \<lparr>shape = [b, d, 16, 16], elems = elems t\<rparr> else Inl ShapeError)"
proof -
  have "int (prod_list (shape t)) = int b * (int d * 256) \<longleftrightarrow> prod_list (shape t) = b * d * 256"
    by (metis (no_types, opaque_lifting) mult.assoc of_nat_eq_iff of_nat_mult of_nat_numeral)
  then show ?thesis
    by (simp add: reshape_def Let_def)
qed

lemma reshape_flatten:
  assumes "shape t = [a, b, h, w]" and "0 < a * b"
  shows "\<exists>t'. reshape t [int a, int b, -1] = Inr t' \<and> shape t' = [a, b, h * w]"
proof -
  have "(a * b * (h * w)) div (a * b) = h * w"
    using assms(2) by simp
  then have "int ((a * b * (h * w)) div (a * b)) = int (h * w)"
    by (simp only:)
  then have d: "int (a * b * (h * w)) div int (a * b) = int (h * w)"
    by (simp only: zdiv_int)
  have m: "int (a * b * (h * w)) mod int (a * b) = 0"
    by (simp del: of_nat_mult)
  have n: "nat (int (h * w)) = h * w"
    by (simp del: of_nat_mult)
  have p: "int a * int b = int (a * b)" "prod_list (shape t) = a * b * (h * w)"
    using assms(1) by (simp_all add: mult.assoc)
  have pos: "0 < int (a * b)"
    using assms(2) by (simp del: of_nat_mult)
  show ?thesis
    using assms(2)
    by (simp add: reshape_def Let_def p d m n pos del: of_nat_mult)
qed

subsection \<open>Valid tensors stay valid, and no read leaves the elements\<close>

lemma unravel_length: "length (unravel ds n) = length ds"
  by (induction ds arbitrary: n) auto

lemma unravel_less:
  "n < prod_list ds \<Longrightarrow> i < length ds \<Longrightarrow> unravel ds n ! i < ds ! i"
proof (induction ds arbitrary: n i)
  case Nil
  then show ?case by simp
next
  case (Cons d ds)
  from Cons.prems(1) have n: "n < d * prod_list ds" by simp
  then have p: "0 < prod_list ds" by (cases "prod_list ds") auto
  show ?case
  proof (cases i)
    case 0
    from n have "n div prod_list ds < d"
      by (simp add: less_mult_imp_div_less)
    with 0 show ?thesis by simp
  next
    case (Suc k)
    with Cons.prems(2) have "k < length ds" by simp
    moreover from p have "n mod prod_list ds < prod_list ds" by simp
    ultimately have "unravel ds (n mod prod_list ds) ! k < ds ! k"
      by (rule Cons.IH [rotated])
    with Suc show ?thesis by simp
  qed
qed

lemma ravel_less:
  "length idx = length ds \<Longrightarrow> (\<forall>i < length ds. idx ! i < ds ! i) \<Longrightarrow>
   ravel ds idx < prod_list ds"
proof (induction ds idx rule: ravel.induct)
  case (1 d ds i idx)
  from "1.prems" have len: "length idx = length ds" by simp
  from "1.prems"(2) have i: "i < d" by fastforce
  have "\<forall>k < length ds. idx ! k < ds ! k"
  proof (intro allI impI)
    fix k assume "k < length ds"
    then have "Suc k < length (d # ds)" by simp
    with "1.prems"(2) have "(i # idx) ! Suc k < (d # ds) ! Suc k" by blast
    then show "idx ! k < ds ! k" by simp
  qed
  with len have r: "ravel ds idx < prod_list ds" by (rule "1.IH")
  have "i * prod_list ds + ravel ds idx < i * prod_list ds + prod_list ds"
    using r by simp
  also have "\<dots> = Suc i * prod_list ds" by simp
  also have "\<dots> \<le> d * prod_list ds"
    using i by (intro mult_le_mono1) simp
  finally show ?case by simp
qed simp_all

lemma index_of_nth:
  "q \<in> set dims \<Longrightarrow> index_of dims q < length dims \<and> dims ! index_of dims q = q"
  by (induction dims) (auto simp: index_of_def)

lemma permutation_covers:
  assumes "distinct dims" and "\<forall>p \<in> set dims. p < length dims" and "q < length dims"
  shows "q \<in> set dims"
proof -
  have "set dims \<subseteq> {0..<length dims}" using assms(2) by auto
  moreover have "card (set dims) = card {0..<length dims}"
    using assms(1) by (simp add: distinct_card)
  ultimately have "set dims = {0..<length dims}"
    by (simp add: card_subset_eq)
  with assms(3) show ?thesis by simp
qed

lemma permute_reads_in_range:
  assumes v: "valid t"
    and len: "length dims = length (shape t)"
    and rng: "\<forall>p \<in> set dims. p < length (shape t)"
    and dis: "distinct dims"
    and n: "n < prod_list (map (\<lambda>p. shape t ! p) dims)"
  shows "ravel (shape t)
           (map (\<lambda>q. unravel (map (\<lambda>p. shape t ! p) dims) n ! index_of dims q) [0..<length dims])
         < length (elems t)"
proof -
  let ?new = "map (\<lambda>p. shape t ! p) dims"
  let ?idx = "map (\<lambda>q. unravel ?new n ! index_of dims q) [0..<length dims]"
  have "\<forall>q < length (shape t). ?idx ! q < shape t ! q"
  proof (intro allI impI)
    fix q assume q: "q < length (shape t)"
    with len rng dis have "q \<in> set dims"
      by (intro permutation_covers) auto
    then have m: "index_of dims q < length dims" "dims ! index_of dims q = q"
      using index_of_nth by blast+
    from unravel_less [OF n, of "index_of dims q"] m
    have "unravel ?new n ! index_of dims q < shape t ! q" by simp
    with q len show "?idx ! q < shape t ! q" by simp
  qed
  moreover have "length ?idx = length (shape t)" using len by simp
  ultimately have "ravel (shape t) ?idx < prod_list (shape t)"
    by (rule ravel_less [rotated])
  with v show ?thesis by (simp add: valid_def)
qed

lemma permute_valid: "permute t dims = Inr t' \<Longrightarrow> valid t'"
  by (auto simp: permute_def valid_def Let_def split: if_splits)

lemma prod_list_nat:
  "\<forall>d \<in> set dims. 0 \<le> d \<Longrightarrow> int (prod_list (map nat dims)) = prod_list dims"
  by (induction dims) (auto simp: nat_mult_distrib)

lemma prod_list_no_inferred:
  "\<forall>e \<in> set ds. e \<noteq> -1 \<Longrightarrow>
   prod_list (map (\<lambda>d. if d = -1 then nat x else nat d) ds) = prod_list (map nat ds)"
  by (induction ds) auto

lemma prod_list_inferred:
  assumes "length (filter (\<lambda>d. d = -1) dims) = 1" and "\<forall>d \<in> set dims. -1 \<le> d" and "0 \<le> x"
  shows "int (prod_list (map (\<lambda>d. if d = -1 then nat x else nat d) dims)) =
           x * prod_list (filter (\<lambda>d. d \<noteq> -1) dims)"
  using assms(1,2)
proof (induction dims)
  case Nil
  then show ?case by simp
next
  case (Cons d ds)
  show ?case
  proof (cases "d = -1")
    case True
    with Cons.prems(1) have none: "filter (\<lambda>d. d = -1) ds = []" by simp
    then have ne: "\<forall>e \<in> set ds. e \<noteq> -1"
      by (simp add: filter_empty_conv)
    with Cons.prems(2) have nn: "\<forall>e \<in> set ds. 0 \<le> e" by fastforce
    from ne have f: "filter (\<lambda>d. d \<noteq> -1) ds = ds"
      by (simp add: filter_id_conv)
    from True prod_list_nat [OF nn] assms(3) show ?thesis
      by (simp add: f prod_list_no_inferred [OF ne])
  next
    case False
    with Cons.prems have one: "length (filter (\<lambda>d. d = -1) ds) = 1"
      and rest: "\<forall>e \<in> set ds. -1 \<le> e" and d: "0 \<le> d"
      by auto
    from Cons.IH [OF one rest] False d show ?thesis
      by simp
  qed
qed

lemma reshape_valid:
  assumes v: "valid t" and r: "reshape t dims = Inr t'"
  shows "valid t'"
proof -
  from r have few: "length (filter (\<lambda>d. d = -1) dims) \<le> 1"
    and low: "\<forall>d \<in> set dims. -1 \<le> d"
    by (auto simp: reshape_def Let_def list_ex_iff split: if_splits)
  let ?numel = "int (prod_list (shape t))"
  let ?newsize = "prod_list (filter (\<lambda>d. d \<noteq> -1) dims)"
  have el: "elems t' = elems t"
    using r by (auto simp: reshape_def Let_def split: if_splits)
  have "int (prod_list (shape t')) = ?numel"
  proof (cases "list_ex (\<lambda>d. d = -1) dims")
    case False
    then have ne: "\<forall>d \<in> set dims. d \<noteq> -1" by (auto simp: list_ex_iff)
    with low have nn: "\<forall>d \<in> set dims. 0 \<le> d" by fastforce
    from ne have f: "filter (\<lambda>d. d \<noteq> -1) dims = dims" by (simp add: filter_id_conv)
    from r False f have "?numel = prod_list dims" and "shape t' = map nat dims"
      by (auto simp: reshape_def Let_def split: if_splits)
    with prod_list_nat [OF nn] show ?thesis by simp
  next
    case True
    then have "filter (\<lambda>d. d = -1) dims \<noteq> []"
      by (simp add: list_ex_iff filter_empty_conv)
    with few have one: "length (filter (\<lambda>d. d = -1) dims) = 1"
      by (cases "filter (\<lambda>d. d = -1) dims") auto
    from r True have sh: "shape t' = map (\<lambda>d. if d = -1 then nat (?numel div ?newsize) else nat d) dims"
      and ok: "?numel = ?newsize \<or> (0 < ?newsize \<and> ?numel mod ?newsize = 0)" and nz: "?newsize \<noteq> 0"
      by (auto simp: reshape_def Let_def split: if_splits)
    have q: "0 \<le> ?numel div ?newsize"
      using ok nz by (auto simp: pos_imp_zdiv_nonneg_iff)
    have "?numel div ?newsize * ?newsize = ?numel"
      using ok nz by auto
    with prod_list_inferred [OF one low q] sh show ?thesis
      by simp
  qed
  then have "prod_list (shape t') = prod_list (shape t)"
    by simp
  with v el show ?thesis by (simp add: valid_def)
qed

lemma interpolate_valid: "interpolate src_index t w = Inr t' \<Longrightarrow> valid t'"
  by (auto simp: interpolate_def valid_def split: list.splits if_splits)

lemma interpolate_reads_in_range:
  assumes "valid t" and "shape t = [n, c, l]" and "0 < l" and "0 < w" and "k < n * c * w"
  shows "(k div w) * l + min (src_index l w (k mod w)) (l - 1) < length (elems t)"
proof -
  have "k div w < n * c"
    using assms(5) by (simp add: less_mult_imp_div_less)
  moreover have "min (src_index l w (k mod w)) (l - 1) < l"
    using assms(3) by (auto simp: min_def)
  ultimately have "(k div w) * l + min (src_index l w (k mod w)) (l - 1) < Suc (k div w) * l"
    and "Suc (k div w) * l \<le> (n * c) * l"
    by (simp, intro mult_le_mono1, simp)
  then show ?thesis
    using assms(1,2) by (simp add: valid_def mult.assoc)
qed

subsection \<open>What \<open>resize_pos_embed\<close> stores\<close>

lemma upt_3: "[0..<3] = [0, 1, 2]"
  by (simp add: eval_nat_numeral)

lemma permute_021_elems:
  assumes "shape t = [a, b, c]"
  shows "permute t [0, 2, 1] =
           Inr \<lparr>shape = [a, c, b],
                elems = map (\<lambda>n. elems t ! ((n div (c * b)) * (b * c) + ((n mod b) * c +
                                          (n mod (c * b)) div b)))
                          [0..<a * c * b]\<rparr>"
proof -
  have "n mod (c * b) mod b = n mod b" for n
    by (simp add: mod_mult_self2_is_0 mod_mod_cancel)
  then show ?thesis
    using assms
    by (simp add: permute_def Let_def upt_3 index_of_def mult.assoc)
qed


lemma resize_pos_embed_rows:
  assumes pe: "map_of state_dict ''positional_embedding'' = Some pos_emb"
    and sh: "shape pos_emb = [l, d]"
    and pos: "0 < l" "0 < d" "0 < w"
  shows "resize_pos_embed src_index state_dict w =
           Inr (dict_setitem state_dict ''positional_embedding''
                  \<lparr>shape = filter (\<lambda>n. n \<noteq> 1) [1, w, d],
                    elems = map (\<lambda>n. elems pos_emb !
                                   (min (src_index l w (n div d)) (l - 1) * d + n mod d))
                              [0..<w * d]\<rparr>)"
proof -
  let ?s = "\<lambda>j. min (src_index l w j) (l - 1)"
  have s_lt: "?s j < l" for j
    using pos(1) by (auto simp: min_def)
  have u: "shape (unsqueeze0 pos_emb) = [1, l, d]" "elems (unsqueeze0 pos_emb) = elems pos_emb"
    by (simp_all add: unsqueeze0_def sh)
  let ?p1 = "\<lparr>shape = [1, d, l],
               elems = map (\<lambda>n. elems pos_emb ! ((n div (d * l)) * (l * d) + ((n mod l) * d +
                                          (n mod (d * l)) div l)))
                          [0..<1 * d * l]\<rparr>"
  have p1: "permute (unsqueeze0 pos_emb) [0, 2, 1] = Inr ?p1"
    using permute_021_elems [OF u(1)] by (simp only: u(2))
  let ?e2 = "map (\<lambda>k. elems ?p1 ! ((k div w) * l + ?s (k mod w))) [0..<1 * d * w]"
  let ?p2 = "\<lparr>shape = [1, d, w], elems = ?e2\<rparr>"
  have p2: "interpolate src_index ?p1 w = Inr ?p2"
    using pos by (simp add: interpolate_def)
  let ?p3 = "\<lparr>shape = [1, w, d],
               elems = map (\<lambda>n. ?e2 ! ((n div (w * d)) * (d * w) + ((n mod d) * w +
                                          (n mod (w * d)) div d)))
                          [0..<1 * w * d]\<rparr>"
  have p3: "permute ?p2 [0, 2, 1] = Inr ?p3"
    using permute_021_elems [of ?p2 1 d w] by simp
  have e3: "elems ?p3 = map (\<lambda>n. elems pos_emb ! (?s (n div d) * d + n mod d)) [0..<w * d]"
  proof (rule nth_equalityI)
    show "length (elems ?p3) = length (map (\<lambda>n. elems pos_emb ! (?s (n div d) * d + n mod d)) [0..<w * d])"
      by simp
  next
    fix n assume "n < length (elems ?p3)"
    then have n: "n < w * d" by simp
    define c where "c = n mod d"
    define j where "j = n div d"
    have c: "c < d" using pos(2) by (simp add: c_def)
    have j: "j < w" using n pos(2) by (simp add: j_def less_mult_imp_div_less)
    have k: "c * w + j < d * w"
    proof -
      have "c * w + j < c * w + w" using j by simp
      also have "\<dots> = Suc c * w" by simp
      also have "\<dots> \<le> d * w" using c by (intro mult_le_mono1) simp
      finally show ?thesis .
    qed
    have m: "c * l + ?s j < d * l"
    proof -
      have "c * l + ?s j < c * l + l" using s_lt [of j] by simp
      also have "\<dots> = Suc c * l" by simp
      also have "\<dots> \<le> d * l" using c by (intro mult_le_mono1) simp
      finally show ?thesis .
    qed
    have "elems ?p3 ! n = ?e2 ! (c * w + j)"
      using n by (simp add: c_def j_def)
    also have "\<dots> = elems ?p1 ! (c * l + ?s j)"
      using k j by (simp add: ac_simps)
    also have "\<dots> = elems pos_emb ! (?s j * d + c)"
      using m s_lt [of j] by (simp add: ac_simps)
    finally show "elems ?p3 ! n = map (\<lambda>n. elems pos_emb ! (?s (n div d) * d + n mod d)) [0..<w * d] ! n"
      using n by (simp add: c_def j_def)
  qed
  have sq: "squeeze ?p3 = \<lparr>shape = filter (\<lambda>n. n \<noteq> 1) [1, w, d],
                    elems = map (\<lambda>n. elems pos_emb ! (?s (n div d) * d + n mod d)) [0..<w * d]\<rparr>"
    unfolding squeeze_def using e3 by simp
  show ?thesis
    unfolding resize_pos_embed_def
    by (simp only: pe option.case p1 p2 p3 sum.case sq)
qed

text \<open>
  For an embedding dimension and a target width of at least 2, \<open>squeeze()\<close> removes
  the batch dimension only: the stored tensor has the shape \<open>(w, d)\<close>, and its row
  \<open>j\<close> is the row of the old tensor that the interpolation picks for \<open>j\<close>. When the
  stored width is the target width already, and the interpolation picks \<open>j\<close> for
  \<open>j\<close>, the state dict is unchanged.
\<close>

lemma resize_pos_embed_regular:
  assumes "map_of state_dict ''positional_embedding'' = Some pos_emb"
    and "shape pos_emb = [l, d]" and "0 < l" and "2 \<le> d" and "2 \<le> w"
  shows "\<exists>resized.
           resize_pos_embed src_index state_dict w =
             Inr (dict_setitem state_dict ''positional_embedding'' resized) \<and>
           shape resized = [w, d] \<and>
           (\<forall>j < w. \<forall>c < d.
              elems resized ! (j * d + c) =
                elems pos_emb ! (min (src_index l w j) (l - 1) * d + c))"
proof -
  let ?r = "\<lparr>shape = filter (\<lambda>n. n \<noteq> 1) [1, w, d],
              elems = map (\<lambda>n. elems pos_emb !
                             (min (src_index l w (n div d)) (l - 1) * d + n mod d))
                        [0..<w * d]\<rparr>"
  have run: "resize_pos_embed src_index state_dict w =
               Inr (dict_setitem state_dict ''positional_embedding'' ?r)"
    using assms by (intro resize_pos_embed_rows) auto
  have sh: "shape ?r = [w, d]"
    using assms(4,5) by simp
  have "elems ?r ! (j * d + c) = elems pos_emb ! (min (src_index l w j) (l - 1) * d + c)"
    if "j < w" and "c < d" for j c
  proof -
    have "j * d + c < j * d + d" using that(2) by simp
    also have "\<dots> = Suc j * d" by simp
    also have "\<dots> \<le> w * d" using that(1) by (intro mult_le_mono1) simp
    finally have "j * d + c < w * d" .
    with that(2) show ?thesis by simp
  qed
  with run sh show ?thesis by blast
qed

lemma resize_pos_embed_same_width:
  assumes pe: "map_of state_dict ''positional_embedding'' = Some pos_emb"
    and v: "valid pos_emb"
    and sh: "shape pos_emb = [w, d]" and big: "2 \<le> d" "2 \<le> w"
    and same: "\<forall>j < w. src_index w w j = j"
  shows "resize_pos_embed src_index state_dict w = Inr state_dict"
proof -
  have len: "length (elems pos_emb) = w * d"
    using v sh by (simp add: valid_def)
  have "map (\<lambda>n. elems pos_emb ! (min (src_index w w (n div d)) (w - 1) * d + n mod d)) [0..<w * d]
        = map (\<lambda>n. elems pos_emb ! n) [0..<w * d]"
  proof (rule map_cong [OF refl])
    fix n assume "n \<in> set [0..<w * d]"
    then have "n < w * d" by simp
    then have j: "n div d < w" by (simp add: less_mult_imp_div_less)
    with same have "min (src_index w w (n div d)) (w - 1) = n div d" by simp
    then show "elems pos_emb ! (min (src_index w w (n div d)) (w - 1) * d + n mod d)
             = elems pos_emb ! n"
      by simp
  qed
  also have "\<dots> = elems pos_emb"
    using map_nth [of "elems pos_emb"] len by simp
  finally have e: "map (\<lambda>n. elems pos_emb ! (min (src_index w w (n div d)) (w - 1) * d + n mod d))
                     [0..<w * d] = elems pos_emb" .
  have "\<lparr>shape = filter (\<lambda>n. n \<noteq> 1) [1, w, d],
          elems = map (\<lambda>n. elems pos_emb !
                         (min (src_index w w (n div d)) (w - 1) * d + n mod d))
                    [0..<w * d]\<rparr> = pos_emb"
    using big sh e by simp
  moreover have "resize_pos_embed src_index state_dict w =
     Inr (dict_setitem state_dict ''positional_embedding''
            \<lparr>shape = filter (\<lambda>n. n \<noteq> 1) [1, w, d],
              elems = map (\<lambda>n. elems pos_emb !
                             (min (src_index w w (n div d)) (w - 1) * d + n mod d))
                        [0..<w * d]\<rparr>)"
    using pe sh big by (intro resize_pos_embed_rows) auto
  ultimately show ?thesis
    by (simp add: dict_setitem_same [OF pe])
qed

section \<open>Loading and converting a state dict\<close>




text \<open>
  Claim C7, as amended. For a state dict that holds no key \<open>text.\<close> + \<open>k\<close> next to
  a key \<open>k\<close> of the text tower: \<open>convert_to_custom_text_state_dict\<close> returns the
  state dict itself when \<open>text_projection\<close> is not a key of it; otherwise it returns the
  state dict with \<open>text.\<close> put before exactly the keys that start with one of the five
  prefixes, with every other key, every value and the order unchanged, and no key dropped.
\<close>

theorem convert_to_custom_text_state_dict_renames:
  assumes keys: "distinct (map fst state_dict)"
    and free: "\<forall>k \<in> set (map fst state_dict).
                 in_text_tower k \<longrightarrow> ''text.'' @ k \<notin> set (map fst state_dict)"
  shows "convert_to_custom_text_state_dict state_dict =
           (if ''text_projection'' \<in> set (map fst state_dict)
            then map (\<lambda>(k, v).
                   (if startswith k ''text_projection'' \<or> startswith k ''positional_embedding'' \<or>
                       startswith k ''token_embedding'' \<or> startswith k ''transformer'' \<or>
                       startswith k ''ln_final''
                    then ''text.'' @ k else k, v)) state_dict
            else state_dict)"
proof -
  have "inj_on text_key (set (map fst state_dict))"
    using free by (rule text_key_inj_on)
  with keys have "distinct (map text_key (map fst state_dict))"
    by (metis distinct_map)
  then have "distinct (map (\<lambda>kv. text_key (fst kv)) state_dict)"
    by (simp add: comp_def)
  then have rk: "dict_rekey text_key state_dict = map (\<lambda>(k, v). (text_key k, v)) state_dict"
    by (rule dict_rekey_distinct)
  have tk: "text_key k =
              (if startswith k ''text_projection'' \<or> startswith k ''positional_embedding'' \<or>
                  startswith k ''token_embedding'' \<or> startswith k ''transformer'' \<or>
                  startswith k ''ln_final''
               then ''text.'' @ k else k)" for k
    by (simp add: text_key_def in_text_tower_def text_tower_prefixes_def)
  show ?thesis
    by (simp add: convert_to_custom_text_state_dict_def dict_contains_iff rk tk)
qed

text \<open>The theorem at a state dict in the old layout.\<close>

theorem convert_to_custom_text_state_dict_renames_witness:
  "convert_to_custom_text_state_dict
     [(''text_projection'', 1::nat), (''transformer.resblocks.0.ln_1.weight'', 2),
      (''visual.proj'', 3), (''logit_scale'', 4)]
   = [(''text.text_projection'', 1), (''text.transformer.resblocks.0.ln_1.weight'', 2),
      (''visual.proj'', 3), (''logit_scale'', 4)]"
  using convert_to_custom_text_state_dict_renames
          [of "[(''text_projection'', 1::nat), (''transformer.resblocks.0.ln_1.weight'', 2),
                (''visual.proj'', 3), (''logit_scale'', 4)]"]
  by (simp add: in_text_tower_def text_tower_prefixes_def startswith_def)

text \<open>
  Claim C7 as stated fails when the new name of a key is taken: the value of
  \<open>text_projection\<close> is stored under \<open>text.text_projection\<close> and then overwritten
  by the entry that had this name before, so one key and one value are lost.
\<close>

theorem convert_to_custom_text_state_dict_renames_counterexample:
  "convert_to_custom_text_state_dict
     [(''text_projection'', 1::nat), (''text.text_projection'', 2)]
   = [(''text.text_projection'', 2)]"
  by code_simp

section \<open>The forward pass\<close>

text \<open>What each of the four methods returns, in terms of the calls that it makes.\<close>

lemma encode_Inr_iff:
  "encode self x = Inr r \<longleftrightarrow>
     (\<exists>h image_hidden image_quant image_quant_loss info.
        encoder self x = Inr h \<and> quant_conv self h = Inr image_hidden \<and>
        quantize self image_hidden Image = Inr (image_quant, image_quant_loss, info) \<and>
        r = (image_quant, image_quant_loss, info, image_hidden))"
  by (auto simp: encode_def bind_Inr_iff split: prod.splits)

lemma decode_Inr_iff:
  "decode self image_coquant = Inr r \<longleftrightarrow>
     (\<exists>post i2i_rec image_hidden i2t_rec.
        post_quant_conv self image_coquant = Inr post \<and>
        decoder self post = Inr (i2i_rec, image_hidden) \<and>
        text_decoder self image_hidden = Inr i2t_rec \<and>
        r = (i2i_rec, i2t_rec))"
  by (auto simp: decode_def bind_Inr_iff split: prod.splits)

lemma text_encode_Inr_iff:
  "text_encode self text valid_lens image_hidden = Inr r \<longleftrightarrow>
     (\<exists>s0 s1 flat tgt embedded mask projected memory fused text_hidden
         text_quant text_quant_loss codebook_indices.
        size_at image_hidden 0 = Inr s0 \<and> size_at image_hidden 1 = Inr s1 \<and>
        reshape image_hidden [int s0, int s1, -1] = Inr flat \<and>
        permute flat [2, 0, 1] = Inr tgt \<and>
        text_encoder self text valid_lens = Inr (embedded, mask) \<and>
        quant_linear self embedded = Inr projected \<and>
        permute projected [1, 0, 2] = Inr memory \<and>
        quant_tf self tgt memory = Inr fused \<and>
        permute fused [1, 0, 2] = Inr text_hidden \<and>
        quantize self text_hidden Text = Inr (text_quant, text_quant_loss, codebook_indices) \<and>
        r = (text_quant, text_quant_loss, codebook_indices, text_hidden, mask))"
  by (auto simp: text_encode_def bind_Inr_iff split: prod.splits)

lemma case_triple_Inr_iff:
  "(case xs of [b, d, l] \<Rightarrow> f b d l | _ \<Rightarrow> Inl e) = Inr r \<longleftrightarrow>
     (\<exists>b d l. xs = [b, d, l] \<and> f b d l = Inr r)"
  by (auto split: list.splits)

lemma text_decode_Inr_iff:
  "text_decode self text_quant valid_lens = Inr r \<longleftrightarrow>
     (\<exists>seq_first attended channels_first b d l grid t2i_rec text_hidden t2t_rec.
        permute text_quant [1, 0, 2] = Inr seq_first \<and>
        post_quant_tf self seq_first = Inr attended \<and>
        permute attended [1, 2, 0] = Inr channels_first \<and>
        shape channels_first = [b, d, l] \<and>
        reshape channels_first [int b, int d, 16, 16] = Inr grid \<and>
        decoder self grid = Inr (t2i_rec, text_hidden) \<and>
        text_decoder self text_hidden = Inr t2t_rec \<and>
        r = (t2t_rec, t2i_rec))"
  by (auto simp: text_decode_def bind_Inr_iff case_triple_Inr_iff split: prod.splits)

text \<open>
  Claim C1, as amended. \<open>forward\<close> returns exactly when every step of it returns, and
  these are all its steps. In \<open>encode\<close>: the encoder on the image, \<open>quant_conv\<close>,
  and the quantizer with the key of the image. In \<open>text_encode\<close>: the reshape of the
  image features to three dimensions and their permutation, the text encoder on the
  tokens and the valid lengths, \<open>quant_linear\<close>, \<open>quant_tf\<close> with the image features
  as target and the text as memory, and the quantizer with the key of the text. The
  cluster on the two quantized tensors, the mask and the valid lengths. In \<open>decode\<close>:
  \<open>post_quant_conv\<close> on the co-quantized image tensor of the cluster, the decoder,
  which gives the image-to-image reconstruction, and the text decoder on the hidden
  state of the decoder, which gives the image-to-text reconstruction. In
  \<open>text_decode\<close>: \<open>post_quant_tf\<close> on the quantized text tensor (the output of the
  quantizer, not the co-quantized text tensor of the cluster), the reshape of its
  \<open>(b, d, l)\<close> result to \<open>(b, d, 16, 16)\<close>, the decoder, which gives the
  text-to-image reconstruction, and the text decoder on the hidden state of the decoder,
  which gives the text-to-text reconstruction. What \<open>forward\<close> returns is then these
  eight outputs in this order: the image-to-image and image-to-text reconstructions, the
  image quantization loss of the quantizer, the text-to-text and text-to-image
  reconstructions, the text quantization loss of the quantizer, and the two mixture
  losses of the cluster. When one of the steps raises, \<open>forward\<close> raises and returns
  nothing.
\<close>

theorem forward_outputs:
  "forward self img text valid_lens = Inr out \<longleftrightarrow>
     (\<exists>h image_hidden image_quant image_quant_loss info
         s0 s1 flat tgt embedded mask projected memory fused text_hidden
         text_quant text_quant_loss text_codebook_indices
         image_coquant text_coquant i_coquant_loss t_coquant_loss
         post i2i_rec i2i_hidden i2t_rec
         seq_first attended channels_first b d l grid t2i_rec t2i_hidden t2t_rec.
        encoder self img = Inr h \<and>
        quant_conv self h = Inr image_hidden \<and>
        quantize self image_hidden Image = Inr (image_quant, image_quant_loss, info) \<and>
        size_at image_hidden 0 = Inr s0 \<and> size_at image_hidden 1 = Inr s1 \<and>
        reshape image_hidden [int s0, int s1, -1] = Inr flat \<and>
        permute flat [2, 0, 1] = Inr tgt \<and>
        text_encoder self text valid_lens = Inr (embedded, mask) \<and>
        quant_linear self embedded = Inr projected \<and>
        permute projected [1, 0, 2] = Inr memory \<and>
        quant_tf self tgt memory = Inr fused \<and>
        permute fused [1, 0, 2] = Inr text_hidden \<and>
        quantize self text_hidden Text = Inr (text_quant, text_quant_loss, text_codebook_indices) \<and>
        i_t_cluster self image_quant text_quant mask valid_lens =
          Inr (image_coquant, text_coquant, i_coquant_loss, t_coquant_loss) \<and>
        post_quant_conv self image_coquant = Inr post \<and>
        decoder self post = Inr (i2i_rec, i2i_hidden) \<and>
        text_decoder self i2i_hidden = Inr i2t_rec \<and>
        permute text_quant [1, 0, 2] = Inr seq_first \<and>
        post_quant_tf self seq_first = Inr attended \<and>
        permute attended [1, 2, 0] = Inr channels_first \<and>
        shape channels_first = [b, d, l] \<and>
        reshape channels_first [int b, int d, 16, 16] = Inr grid \<and>
        decoder self grid = Inr (t2i_rec, t2i_hidden) \<and>
        text_decoder self t2i_hidden = Inr t2t_rec \<and>
        out = (i2i_rec, i2t_rec, image_quant_loss, t2t_rec, t2i_rec, text_quant_loss,
               i_coquant_loss, t_coquant_loss))"
  (is "?lhs \<longleftrightarrow> ?rhs")
proof
  assume ?lhs
  then obtain image_quant image_quant_loss info image_hidden
      text_quant text_quant_loss text_codebook_indices text_hidden mask
      image_coquant text_coquant i_coquant_loss t_coquant_loss
      i2i_rec i2t_rec t2t_rec t2i_rec
    where enc: "encode self img = Inr (image_quant, image_quant_loss, info, image_hidden)"
      and tenc: "text_encode self text valid_lens image_hidden =
          Inr (text_quant, text_quant_loss, text_codebook_indices, text_hidden, mask)"
      and clu: "i_t_cluster self image_quant text_quant mask valid_lens =
          Inr (image_coquant, text_coquant, i_coquant_loss, t_coquant_loss)"
      and dec: "decode self image_coquant = Inr (i2i_rec, i2t_rec)"
      and tdec: "text_decode self text_quant valid_lens = Inr (t2t_rec, t2i_rec)"
      and out: "out = (i2i_rec, i2t_rec, image_quant_loss, t2t_rec, t2i_rec, text_quant_loss,
               i_coquant_loss, t_coquant_loss)"
    by (auto simp: forward_def bind_Inr_iff split: prod.splits)
  from enc obtain h where e: "encoder self img = Inr h" "quant_conv self h = Inr image_hidden"
      "quantize self image_hidden Image = Inr (image_quant, image_quant_loss, info)"
    unfolding encode_Inr_iff by auto
  from tenc obtain s0 s1 flat tgt embedded projected memory fused where
      te: "size_at image_hidden 0 = Inr s0" "size_at image_hidden 1 = Inr s1"
      "reshape image_hidden [int s0, int s1, -1] = Inr flat"
      "permute flat [2, 0, 1] = Inr tgt"
      "text_encoder self text valid_lens = Inr (embedded, mask)"
      "quant_linear self embedded = Inr projected"
      "permute projected [1, 0, 2] = Inr memory"
      "quant_tf self tgt memory = Inr fused"
      "permute fused [1, 0, 2] = Inr text_hidden"
      "quantize self text_hidden Text = Inr (text_quant, text_quant_loss, text_codebook_indices)"
    unfolding text_encode_Inr_iff by auto
  from dec obtain post i2i_hidden where
      de: "post_quant_conv self image_coquant = Inr post"
      "decoder self post = Inr (i2i_rec, i2i_hidden)"
      "text_decoder self i2i_hidden = Inr i2t_rec"
    unfolding decode_Inr_iff by auto
  from tdec obtain seq_first attended channels_first b d l grid t2i_hidden where
      td: "permute text_quant [1, 0, 2] = Inr seq_first"
      "post_quant_tf self seq_first = Inr attended"
      "permute attended [1, 2, 0] = Inr channels_first"
      "shape channels_first = [b, d, l]"
      "reshape channels_first [int b, int d, 16, 16] = Inr grid"
      "decoder self grid = Inr (t2i_rec, t2i_hidden)"
      "text_decoder self t2i_hidden = Inr t2t_rec"
    unfolding text_decode_Inr_iff by auto
  from e te clu de td out show ?rhs
    by (intro exI conjI)
next
  assume ?rhs
  then obtain h image_hidden image_quant image_quant_loss info
         s0 s1 flat tgt embedded mask projected memory fused text_hidden
         text_quant text_quant_loss text_codebook_indices
         image_coquant text_coquant i_coquant_loss t_coquant_loss
         post i2i_rec i2i_hidden i2t_rec
         seq_first attended channels_first b d l grid t2i_rec t2i_hidden t2t_rec
    where e: "encoder self img = Inr h"
        "quant_conv self h = Inr image_hidden"
        "quantize self image_hidden Image = Inr (image_quant, image_quant_loss, info)"
      and te: "size_at image_hidden 0 = Inr s0" "size_at image_hidden 1 = Inr s1"
        "reshape image_hidden [int s0, int s1, -1] = Inr flat"
        "permute flat [2, 0, 1] = Inr tgt"
        "text_encoder self text valid_lens = Inr (embedded, mask)"
        "quant_linear self embedded = Inr projected"
        "permute projected [1, 0, 2] = Inr memory"
        "quant_tf self tgt memory = Inr fused"
        "permute fused [1, 0, 2] = Inr text_hidden"
        "quantize self text_hidden Text = Inr (text_quant, text_quant_loss, text_codebook_indices)"
      and clu: "i_t_cluster self image_quant text_quant mask valid_lens =
          Inr (image_coquant, text_coquant, i_coquant_loss, t_coquant_loss)"
      and de: "post_quant_conv self image_coquant = Inr post"
        "decoder self post = Inr (i2i_rec, i2i_hidden)"
        "text_decoder self i2i_hidden = Inr i2t_rec"
      and td: "permute text_quant [1, 0, 2] = Inr seq_first"
        "post_quant_tf self seq_first = Inr attended"
        "permute attended [1, 2, 0] = Inr channels_first"
        "shape channels_first = [b, d, l]"
        "reshape channels_first [int b, int d, 16, 16] = Inr grid"
        "decoder self grid = Inr (t2i_rec, t2i_hidden)"
        "text_decoder self t2i_hidden = Inr t2t_rec"
      and out: "out = (i2i_rec, i2t_rec, image_quant_loss, t2t_rec, t2i_rec, text_quant_loss,
               i_coquant_loss, t_coquant_loss)"
    by (elim exE conjE)
  have enc: "encode self img = Inr (image_quant, image_quant_loss, info, image_hidden)"
    by (simp only: encode_def e bind_Inr prod.case)
  have tenc: "text_encode self text valid_lens image_hidden =
          Inr (text_quant, text_quant_loss, text_codebook_indices, text_hidden, mask)"
    by (simp only: text_encode_def te bind_Inr prod.case)
  have dec: "decode self image_coquant = Inr (i2i_rec, i2t_rec)"
    by (simp only: decode_def de bind_Inr prod.case)
  have tdec: "text_decode self text_quant valid_lens = Inr (t2t_rec, t2i_rec)"
    by (simp only: text_decode_def td bind_Inr prod.case list.case)
  show ?lhs
    by (simp only: forward_def enc tenc clu dec tdec out bind_Inr prod.case)
qed

text \<open>
  A call that returns: sub-modules that hand on what they are given, and a latent grid of
  16 by 16 positions. Each step of the theorem is discharged for these sub-modules.
\<close>

theorem forward_outputs_witness:
  "\<exists>i2i_rec i2t_rec t2t_rec t2i_rec.
     forward (\<lparr>encoder = Inr, decoder = (\<lambda>t. Inr (t, t)),
       quantize = (\<lambda>t k. Inr (t, \<lparr>shape = [], elems = [0]\<rparr>, ())),
       quant_conv = Inr, post_quant_conv = Inr,
       text_encoder = (\<lambda>text vl. Inr (text, ())),
       text_decoder = Inr, quant_linear = Inr,
       quant_tf = (\<lambda>tgt memory. Inr tgt), post_quant_tf = Inr,
       i_t_cluster = (\<lambda>iq tq m vl. Inr (iq, tq, \<lparr>shape = [], elems = [0]\<rparr>,
                                        \<lparr>shape = [], elems = [0]\<rparr>))\<rparr> :: (nat, nat tensor, unit, unit, unit) vqmodel)
       \<lparr>shape = [1, 1, 16, 16], elems = replicate 256 5\<rparr>
       \<lparr>shape = [1, 3, 1], elems = [7, 8, 9]\<rparr> ()
       = Inr (i2i_rec, i2t_rec, \<lparr>shape = [], elems = [0]\<rparr>, t2t_rec, t2i_rec,
              \<lparr>shape = [], elems = [0]\<rparr>, \<lparr>shape = [], elems = [0]\<rparr>,
              \<lparr>shape = [], elems = [0]\<rparr>) \<and>
     i2i_rec = \<lparr>shape = [1, 1, 16, 16], elems = replicate 256 5\<rparr> \<and>
     i2t_rec = \<lparr>shape = [1, 1, 16, 16], elems = replicate 256 5\<rparr> \<and>
     shape t2t_rec = [1, 1, 16, 16] \<and> shape t2i_rec = [1, 1, 16, 16]"
proof -
  let ?m = "\<lparr>encoder = Inr, decoder = (\<lambda>t. Inr (t, t)),
       quantize = (\<lambda>t k. Inr (t, \<lparr>shape = [], elems = [0]\<rparr>, ())),
       quant_conv = Inr, post_quant_conv = Inr,
       text_encoder = (\<lambda>text vl. Inr (text, ())),
       text_decoder = Inr, quant_linear = Inr,
       quant_tf = (\<lambda>tgt memory. Inr tgt), post_quant_tf = Inr,
       i_t_cluster = (\<lambda>iq tq m vl. Inr (iq, tq, \<lparr>shape = [], elems = [0]\<rparr>,
                                        \<lparr>shape = [], elems = [0]\<rparr>))\<rparr> :: (nat, nat tensor, unit, unit, unit) vqmodel"
  let ?img = "\<lparr>shape = [1, 1, 16, 16], elems = replicate 256 (5::nat)\<rparr>"
  let ?text = "\<lparr>shape = [1, 3, 1], elems = [7, 8, 9::nat]\<rparr>"
  let ?s0 = "\<lparr>shape = [], elems = [0::nat]\<rparr>"
  obtain flat where flat: "reshape ?img [int 1, int 1, -1] = Inr flat"
      and flat_shape: "shape flat = [1, 1, 16 * 16]"
    using reshape_flatten [of ?img 1 1 16 16] by auto
  obtain tgt where tgt: "permute flat [2, 0, 1] = Inr tgt"
      and tgt_shape: "shape tgt = [16 * 16, 1, 1]"
    using permute_201 [OF flat_shape] by auto
  obtain memory where memory: "permute ?text [1, 0, 2] = Inr memory"
    using permute_102 [of ?text 1 3 1] by auto
  obtain text_quant where text_quant: "permute tgt [1, 0, 2] = Inr text_quant"
      and text_quant_shape: "shape text_quant = [1, 16 * 16, 1]"
    using permute_102 [OF tgt_shape] by auto
  obtain seq_first where seq_first: "permute text_quant [1, 0, 2] = Inr seq_first"
      and seq_first_shape: "shape seq_first = [16 * 16, 1, 1]"
    using permute_102 [OF text_quant_shape] by auto
  obtain channels_first where channels_first: "permute seq_first [1, 2, 0] = Inr channels_first"
      and channels_first_shape: "shape channels_first = [1, 1, 16 * 16]"
    using permute_120 [OF seq_first_shape] by auto
  let ?grid = "\<lparr>shape = [1, 1, 16, 16], elems = elems channels_first\<rparr>"
  have grid: "reshape channels_first [int 1, int 1, 16, 16] = Inr ?grid"
    using reshape_16_16 [of channels_first 1 1] channels_first_shape by simp
  have sz: "size_at ?img 0 = Inr 1" "size_at ?img 1 = Inr 1"
    by (simp_all add: size_at_def)
  have image: "encoder ?m ?img = Inr ?img" "quant_conv ?m ?img = Inr ?img"
      "quantize ?m ?img Image = Inr (?img, ?s0, ())"
    by simp_all
  have tside: "text_encoder ?m ?text () = Inr (?text, ())" "quant_linear ?m ?text = Inr ?text"
      "quant_tf ?m tgt memory = Inr tgt" "quantize ?m text_quant Text = Inr (text_quant, ?s0, ())"
    by simp_all
  have clu: "i_t_cluster ?m ?img text_quant () () = Inr (?img, text_quant, ?s0, ?s0)"
    by simp
  have i2: "post_quant_conv ?m ?img = Inr ?img" "decoder ?m ?img = Inr (?img, ?img)"
      "text_decoder ?m ?img = Inr ?img"
    by simp_all
  have t2: "post_quant_tf ?m seq_first = Inr seq_first" "decoder ?m ?grid = Inr (?grid, ?grid)"
      "text_decoder ?m ?grid = Inr ?grid"
    by simp_all
  have "forward ?m ?img ?text () = Inr (?img, ?img, ?s0, ?grid, ?grid, ?s0, ?s0, ?s0)"
    unfolding forward_outputs
    using image sz flat tgt tside(1,2) memory tside(3) text_quant tside(4) clu i2
      seq_first t2(1) channels_first channels_first_shape grid t2(2,3)
    by (intro exI conjI) (assumption+, rule refl)
  then show ?thesis
    by simp
qed

text \<open>
  Claim C1 as stated promises the eight outputs for every input. With the same
  sub-modules and a latent grid of 2 by 2 positions, the quantized text tensor has 4
  positions, the reshape to 16 by 16 in \<open>text_decode\<close> fails, and \<open>forward\<close> raises.
\<close>

theorem forward_outputs_counterexample:
  "forward
     (\<lparr>encoder = Inr, decoder = (\<lambda>t. Inr (t, t)),
       quantize = (\<lambda>t k. Inr (t, \<lparr>shape = [], elems = [0]\<rparr>, ())),
       quant_conv = Inr, post_quant_conv = Inr,
       text_encoder = (\<lambda>text vl. Inr (text, ())),
       text_decoder = Inr, quant_linear = Inr,
       quant_tf = (\<lambda>tgt memory. Inr tgt), post_quant_tf = Inr,
       i_t_cluster = (\<lambda>iq tq m vl. Inr (iq, tq, \<lparr>shape = [], elems = [0]\<rparr>,
                                        \<lparr>shape = [], elems = [0]\<rparr>))\<rparr> :: (nat, nat tensor, unit, unit, unit) vqmodel)
     \<lparr>shape = [1, 1, 2, 2], elems = [1, 2, 3, 4]\<rparr>
     \<lparr>shape = [1, 3, 1], elems = [7, 8, 9]\<rparr> ()
   = Inl ShapeError"
  by code_simp

text \<open>
  Claim C10, as amended. Let the quantized text tensor have the shape \<open>(b, l, d)\<close>.
  Its permutation to \<open>(l, b, d)\<close> succeeds, and when \<open>post_quant_tf\<close> raises on
  that tensor, \<open>text_decode\<close> raises the same error. When \<open>post_quant_tf\<close> returns
  on that tensor a tensor of the same shape, as a transformer encoder does, the
  permutation to \<open>(b, d, l)\<close> succeeds, and then:

    \<^item> when the tensor is not empty (\<open>b * d\<close> is not 0) and \<open>l\<close> is not 256, the
      reshape to \<open>(b, d, 16, 16)\<close> fails and \<open>text_decode\<close> raises its error;

    \<^item> when \<open>l\<close> is 256, or the tensor is empty, the reshape succeeds, and
      \<open>text_decode\<close> is what the decoder, on the reshaped tensor, and the text decoder,
      on the hidden state that the decoder returns, make of it: whenever these two
      return on the tensors that this call hands them, \<open>text_decode\<close> returns their
      results, and when one of them raises, \<open>text_decode\<close> raises;

    \<^item> in both cases the decoder is handed nothing but a tensor of the shape
      \<open>(b, d, 16, 16)\<close>: a decoder that refuses every other shape gives the same
      result.
\<close>

theorem text_decode_reshape:
  assumes tq: "shape text_quant = [b, l, d]"
  shows "\<exists>seq_first.
     permute text_quant [1, 0, 2] = Inr seq_first \<and> shape seq_first = [l, b, d] \<and>
     (\<forall>e. post_quant_tf self seq_first = Inl e \<longrightarrow>
        text_decode self text_quant valid_lens = Inl e) \<and>
     (\<forall>attended.
        post_quant_tf self seq_first = Inr attended \<and> shape attended = shape seq_first \<longrightarrow>
        (\<exists>channels_first.
           permute attended [1, 2, 0] = Inr channels_first \<and>
           shape channels_first = [b, d, l] \<and>
           (b * d \<noteq> 0 \<and> l \<noteq> 256 \<longrightarrow>
              reshape channels_first [int b, int d, 16, 16] = Inl ShapeError \<and>
              text_decode self text_quant valid_lens = Inl ShapeError) \<and>
           (b * d = 0 \<or> l = 256 \<longrightarrow>
              reshape channels_first [int b, int d, 16, 16] =
                Inr \<lparr>shape = [b, d, 16, 16], elems = elems channels_first\<rparr> \<and>
              text_decode self text_quant valid_lens =
                bind (decoder self \<lparr>shape = [b, d, 16, 16], elems = elems channels_first\<rparr>)
                  (\<lambda>(t2i_rec, text_hidden).
                bind (text_decoder self text_hidden) (\<lambda>t2t_rec.
                Inr (t2t_rec, t2i_rec))) \<and>
              (\<forall>t2i_rec text_hidden t2t_rec.
                 decoder self \<lparr>shape = [b, d, 16, 16], elems = elems channels_first\<rparr> =
                   Inr (t2i_rec, text_hidden) \<and>
                 text_decoder self text_hidden = Inr t2t_rec \<longrightarrow>
                 text_decode self text_quant valid_lens = Inr (t2t_rec, t2i_rec))) \<and>
           text_decode self text_quant valid_lens =
             text_decode
               (self\<lparr>decoder := \<lambda>x. if shape x = [b, d, 16, 16] then decoder self x
                                    else Inl ShapeError\<rparr>)
               text_quant valid_lens))"
proof -
  obtain t1 where p1: "permute text_quant [1, 0, 2] = Inr t1" and s1: "shape t1 = [l, b, d]"
    using permute_102 [OF tq] by auto
  let ?rest = "\<lambda>m t3. bind (reshape t3 [int b, int d, 16, 16]) (\<lambda>text_quant.
          bind (decoder m text_quant) (\<lambda>(t2i_rec, text_hidden).
          bind (text_decoder m text_hidden) (\<lambda>t2t_rec.
          Inr (t2t_rec, t2i_rec))))"
  let ?self' = "self\<lparr>decoder := \<lambda>x. if shape x = [b, d, 16, 16] then decoder self x
                                  else Inl ShapeError\<rparr>"
  have sel: "post_quant_tf ?self' = post_quant_tf self" "text_decoder ?self' = text_decoder self"
    "decoder ?self' = (\<lambda>x. if shape x = [b, d, 16, 16] then decoder self x else Inl ShapeError)"
    by simp_all
  have raise: "text_decode self text_quant valid_lens = Inl e"
    if "post_quant_tf self t1 = Inl e" for e
    using that by (simp only: text_decode_def p1 bind_Inr bind_Inl)
  have ret: "\<exists>channels_first.
           permute attended [1, 2, 0] = Inr channels_first \<and>
           shape channels_first = [b, d, l] \<and>
           (b * d \<noteq> 0 \<and> l \<noteq> 256 \<longrightarrow>
              reshape channels_first [int b, int d, 16, 16] = Inl ShapeError \<and>
              text_decode self text_quant valid_lens = Inl ShapeError) \<and>
           (b * d = 0 \<or> l = 256 \<longrightarrow>
              reshape channels_first [int b, int d, 16, 16] =
                Inr \<lparr>shape = [b, d, 16, 16], elems = elems channels_first\<rparr> \<and>
              text_decode self text_quant valid_lens =
                bind (decoder self \<lparr>shape = [b, d, 16, 16], elems = elems channels_first\<rparr>)
                  (\<lambda>(t2i_rec, text_hidden).
                bind (text_decoder self text_hidden) (\<lambda>t2t_rec.
                Inr (t2t_rec, t2i_rec))) \<and>
              (\<forall>t2i_rec text_hidden t2t_rec.
                 decoder self \<lparr>shape = [b, d, 16, 16], elems = elems channels_first\<rparr> =
                   Inr (t2i_rec, text_hidden) \<and>
                 text_decoder self text_hidden = Inr t2t_rec \<longrightarrow>
                 text_decode self text_quant valid_lens = Inr (t2t_rec, t2i_rec))) \<and>
           text_decode self text_quant valid_lens = text_decode ?self' text_quant valid_lens"
    if tf: "post_quant_tf self t1 = Inr attended" and keep: "shape attended = shape t1"
    for attended
  proof -
    from keep s1 have s2: "shape attended = [l, b, d]" by simp
    obtain t3 where p3: "permute attended [1, 2, 0] = Inr t3" and s3: "shape t3 = [b, d, l]"
      using permute_120 [OF s2] by auto
    let ?grid = "\<lparr>shape = [b, d, 16, 16], elems = elems t3\<rparr>"
    have run: "text_decode self text_quant valid_lens = ?rest self t3"
      by (simp only: text_decode_def p1 tf p3 s3 bind_Inr list.case)
    have run': "text_decode ?self' text_quant valid_lens = ?rest ?self' t3"
      by (simp only: text_decode_def p1 tf p3 s3 bind_Inr list.case sel(1))
    have fit: "prod_list (shape t3) = b * d * 256 \<longleftrightarrow> b * d = 0 \<or> l = 256"
      by (auto simp: s3)
    have no: "reshape t3 [int b, int d, 16, 16] = Inl ShapeError"
        "text_decode self text_quant valid_lens = Inl ShapeError"
        "text_decode self text_quant valid_lens = text_decode ?self' text_quant valid_lens"
      if "b * d \<noteq> 0 \<and> l \<noteq> 256"
    proof -
      from that fit show r: "reshape t3 [int b, int d, 16, 16] = Inl ShapeError"
        by (simp add: reshape_16_16)
      then show t: "text_decode self text_quant valid_lens = Inl ShapeError"
        by (simp only: run bind_Inl)
      from r have "text_decode ?self' text_quant valid_lens = Inl ShapeError"
        by (simp only: run' bind_Inl)
      with t show "text_decode self text_quant valid_lens = text_decode ?self' text_quant valid_lens"
        by simp
    qed
    have yes: "reshape t3 [int b, int d, 16, 16] = Inr ?grid"
        "text_decode self text_quant valid_lens =
           bind (decoder self ?grid) (\<lambda>(t2i_rec, text_hidden).
           bind (text_decoder self text_hidden) (\<lambda>t2t_rec. Inr (t2t_rec, t2i_rec)))"
        "\<forall>t2i_rec text_hidden t2t_rec.
           decoder self ?grid = Inr (t2i_rec, text_hidden) \<and>
           text_decoder self text_hidden = Inr t2t_rec \<longrightarrow>
           text_decode self text_quant valid_lens = Inr (t2t_rec, t2i_rec)"
        "text_decode self text_quant valid_lens = text_decode ?self' text_quant valid_lens"
      if "b * d = 0 \<or> l = 256"
    proof -
      from that fit show r: "reshape t3 [int b, int d, 16, 16] = Inr ?grid"
        by (simp add: reshape_16_16)
      then show t: "text_decode self text_quant valid_lens =
           bind (decoder self ?grid) (\<lambda>(t2i_rec, text_hidden).
           bind (text_decoder self text_hidden) (\<lambda>t2t_rec. Inr (t2t_rec, t2i_rec)))"
        by (simp only: run bind_Inr)
      then show "\<forall>t2i_rec text_hidden t2t_rec.
           decoder self ?grid = Inr (t2i_rec, text_hidden) \<and>
           text_decoder self text_hidden = Inr t2t_rec \<longrightarrow>
           text_decode self text_quant valid_lens = Inr (t2t_rec, t2i_rec)"
        by (simp add: bind_Inr)
      from r have "text_decode ?self' text_quant valid_lens =
           bind (decoder self ?grid) (\<lambda>(t2i_rec, text_hidden).
           bind (text_decoder self text_hidden) (\<lambda>t2t_rec. Inr (t2t_rec, t2i_rec)))"
        by (simp add: run' bind_Inr)
      with t show "text_decode self text_quant valid_lens = text_decode ?self' text_quant valid_lens"
        by simp
    qed
    have both: "text_decode self text_quant valid_lens = text_decode ?self' text_quant valid_lens"
      using no(3) yes(4) by (cases "b * d = 0 \<or> l = 256") simp_all
    show ?thesis
      apply (rule exI [of _ t3])
      apply (intro conjI impI)
             apply (rule p3)
            apply (rule s3)
           apply (erule no(1))
          apply (erule no(2))
         apply (erule yes(1))
        apply (erule yes(2))
       apply (erule yes(3))
      apply (rule both)
      done
  qed
  show ?thesis
    apply (rule exI [of _ t1])
    apply (intro conjI allI impI)
       apply (rule p1)
      apply (rule s1)
     apply (erule raise)
    apply (erule conjE)
    apply (erule (1) ret)
    done
qed

text \<open>
  The theorem at a sequence of 4 positions, which is refused, and at one of 256, for
  which \<open>text_decode\<close> returns: the sub-modules are asked to return on the tensors of
  these two calls only.
\<close>

theorem text_decode_reshape_witness:
  "text_decode (\<lparr>encoder = Inr, decoder = (\<lambda>t. Inr (t, t)),
       quantize = (\<lambda>t k. Inr (t, \<lparr>shape = [], elems = [0]\<rparr>, ())),
       quant_conv = Inr, post_quant_conv = Inr,
       text_encoder = (\<lambda>text vl. Inr (text, ())),
       text_decoder = Inr, quant_linear = Inr,
       quant_tf = (\<lambda>tgt memory. Inr tgt), post_quant_tf = Inr,
       i_t_cluster = (\<lambda>iq tq m vl. Inr (iq, tq, \<lparr>shape = [], elems = [0]\<rparr>,
                                        \<lparr>shape = [], elems = [0]\<rparr>))\<rparr> :: (nat, nat tensor, unit, unit, unit) vqmodel)
     \<lparr>shape = [1, 4, 2], elems = [1, 2, 3, 4, 5, 6, 7, 8]\<rparr> () = Inl ShapeError \<and>
   (\<exists>t2t_rec t2i_rec.
      text_decode (\<lparr>encoder = Inr, decoder = (\<lambda>t. Inr (t, t)),
       quantize = (\<lambda>t k. Inr (t, \<lparr>shape = [], elems = [0]\<rparr>, ())),
       quant_conv = Inr, post_quant_conv = Inr,
       text_encoder = (\<lambda>text vl. Inr (text, ())),
       text_decoder = Inr, quant_linear = Inr,
       quant_tf = (\<lambda>tgt memory. Inr tgt), post_quant_tf = Inr,
       i_t_cluster = (\<lambda>iq tq m vl. Inr (iq, tq, \<lparr>shape = [], elems = [0]\<rparr>,
                                        \<lparr>shape = [], elems = [0]\<rparr>))\<rparr> :: (nat, nat tensor, unit, unit, unit) vqmodel)
        \<lparr>shape = [1, 256, 1], elems = replicate 256 5\<rparr> () = Inr (t2t_rec, t2i_rec) \<and>
      shape t2t_rec = [1, 1, 16, 16] \<and> shape t2i_rec = [1, 1, 16, 16])"
proof -
  let ?m = "\<lparr>encoder = Inr, decoder = (\<lambda>t. Inr (t, t)),
       quantize = (\<lambda>t k. Inr (t, \<lparr>shape = [], elems = [0]\<rparr>, ())),
       quant_conv = Inr, post_quant_conv = Inr,
       text_encoder = (\<lambda>text vl. Inr (text, ())),
       text_decoder = Inr, quant_linear = Inr,
       quant_tf = (\<lambda>tgt memory. Inr tgt), post_quant_tf = Inr,
       i_t_cluster = (\<lambda>iq tq m vl. Inr (iq, tq, \<lparr>shape = [], elems = [0]\<rparr>,
                                        \<lparr>shape = [], elems = [0]\<rparr>))\<rparr> :: (nat, nat tensor, unit, unit, unit) vqmodel"
  let ?short = "\<lparr>shape = [1, 4, 2], elems = [1, 2, 3, 4, 5, 6, 7, 8::nat]\<rparr>"
  let ?full = "\<lparr>shape = [1, 256, 1], elems = replicate 256 (5::nat)\<rparr>"
  have sel: "post_quant_tf ?m = Inr" "decoder ?m = (\<lambda>t. Inr (t, t))" "text_decoder ?m = Inr"
    by simp_all
  have a: "text_decode ?m ?short () = Inl ShapeError"
    using text_decode_reshape [where self = ?m and b = 1 and l = 4 and d = 2
        and text_quant = ?short and valid_lens = "()"]
    unfolding sel by auto
  have b: "\<exists>t2t_rec t2i_rec. text_decode ?m ?full () = Inr (t2t_rec, t2i_rec) \<and>
      shape t2t_rec = [1, 1, 16, 16] \<and> shape t2i_rec = [1, 1, 16, 16]"
    using text_decode_reshape [where self = ?m and b = 1 and l = 256 and d = 1
        and text_quant = ?full and valid_lens = "()"]
    unfolding sel by auto
  from a b show ?thesis by blast
qed

text \<open>
  Claim C10 as stated has the reshape fail for every sequence length other than 256. An
  empty batch has no elements, whatever its sequence length is, and its reshape to
  \<open>(0, d, 16, 16)\<close> succeeds: \<open>text_decode\<close>, called on an empty batch of sequences of
  4 positions with sub-modules that hand an empty batch on, returns. This is a call of
  \<open>text_decode\<close> on its own; inside \<open>forward\<close> an empty batch does not get this far,
  since the reshape with an inferred dimension in \<open>text_encode\<close> raises on it.
\<close>

theorem text_decode_reshape_counterexample:
  "text_decode (\<lparr>encoder = Inr, decoder = (\<lambda>t. Inr (t, t)),
       quantize = (\<lambda>t k. Inr (t, \<lparr>shape = [], elems = [0]\<rparr>, ())),
       quant_conv = Inr, post_quant_conv = Inr,
       text_encoder = (\<lambda>text vl. Inr (text, ())),
       text_decoder = Inr, quant_linear = Inr,
       quant_tf = (\<lambda>tgt memory. Inr tgt), post_quant_tf = Inr,
       i_t_cluster = (\<lambda>iq tq m vl. Inr (iq, tq, \<lparr>shape = [], elems = [0]\<rparr>,
                                        \<lparr>shape = [], elems = [0]\<rparr>))\<rparr> :: (nat, nat tensor, unit, unit, unit) vqmodel)
     \<lparr>shape = [0, 4, 2], elems = []\<rparr> ()
   = Inr (\<lparr>shape = [0, 2, 16, 16], elems = []\<rparr>, \<lparr>shape = [0, 2, 16, 16], elems = []\<rparr>)"
  by code_simp

section \<open>The resized position embedding\<close>

text \<open>
  Claim C8, at an input where the code departs from it. A position embedding of one row
  of two values, resized to the width 1 that it already has, is stored as a tensor of the
  one dimension 2: \<open>squeeze()\<close> without an argument removes the sequence dimension of
  size 1 together with the batch dimension that \<open>unsqueeze(0)\<close> added. The lemmas
  \<open>resize_pos_embed_rows\<close>, \<open>resize_pos_embed_regular\<close> and
  \<open>resize_pos_embed_same_width\<close> say what is stored in general.
\<close>

theorem resize_pos_embed_unit_width:
  "resize_pos_embed src_index
     [(''positional_embedding'', \<lparr>shape = [1, 2], elems = [x, y]\<rparr>)] 1
   = Inr [(''positional_embedding'', \<lparr>shape = [2], elems = [x, y]\<rparr>)]"
  by (simp add: resize_pos_embed_def unsqueeze0_def squeeze_def permute_def interpolate_def
        index_of_def Let_def eval_nat_numeral)


end
